theory Spec2Isabelle
  imports Complex_Main
begin

section \<open>Conventions of the embedding\<close>

text \<open>
  The Python sources compute on IEEE doubles; the embedding computes on the reals, so
  the statements below are about the exact arithmetic the code denotes (no rounding, no
  NaN, no infinities), except in the aggregation of the report, where the rounding of the
  doubles is modelled (\<open>double_of\<close>). Python lists are HOL lists, a dict with fixed
  keys is a record, a raised exception is the \<open>Inl\<close> branch of a sum.
\<close>

datatype py_error = IndexError | KeyError | ValueError

text \<open>\<open>collect\<close> returns the first error of a list of results, or all the values.\<close>

fun collect :: "('e + 'a) list \<Rightarrow> 'e + 'a list" where
  "collect [] = Inr []"
| "collect (x # xs) =
     (case x of
        Inl e \<Rightarrow> Inl e
      | Inr v \<Rightarrow> (case collect xs of Inl e \<Rightarrow> Inl e | Inr vs \<Rightarrow> Inr (v # vs)))"

section \<open>text\_similarity.py\<close>

subsection \<open>Word spans\<close>

text \<open>
  A segment is a dict with the keys \<open>word\<close>, \<open>start_time\<close>, \<open>end_time\<close> and
  possibly more (\<open>confidence\<close>, \<open>mfcc\<close>); the further keys are the extension part of
  the record, which \<open>seg.copy()\<close> keeps.
\<close>

record segment =
  word :: string
  start_time :: real
  end_time :: real

definition normalize_segments_to_zero ::
  "'a segment_scheme list \<Rightarrow> 'a segment_scheme list" where
  "normalize_segments_to_zero segments =
     (case segments of
        [] \<Rightarrow> segments
      | first # _ \<Rightarrow>
          (let offset = start_time first
           in map (\<lambda>seg. seg\<lparr>start_time := start_time seg - offset,
                               end_time := end_time seg - offset\<rparr>) segments))"

subsection \<open>normalize\_and\_tokenize\<close>

text \<open>
  Text is ASCII here: a Python \<open>str\<close> is a \<open>string\<close>, one \<open>char\<close> per character, and
  characters outside ASCII are not part of the model (on ASCII text the replacement of the
  curly apostrophe by the plain one changes nothing). \<open>\w\<close> is a letter, a digit or the
  underscore; \<open>\s\<close> and the whitespace of \<open>strip\<close> and \<open>split\<close> are the characters
  9 to 13, 28 to 32.
\<close>

definition is_upper :: "char \<Rightarrow> bool" where
  "is_upper c = (65 \<le> (of_char c :: nat) \<and> (of_char c :: nat) \<le> 90)"

definition is_lower :: "char \<Rightarrow> bool" where
  "is_lower c = (97 \<le> (of_char c :: nat) \<and> (of_char c :: nat) \<le> 122)"

definition is_digit :: "char \<Rightarrow> bool" where
  "is_digit c = (48 \<le> (of_char c :: nat) \<and> (of_char c :: nat) \<le> 57)"

definition is_word_char :: "char \<Rightarrow> bool" where
  "is_word_char c = (is_upper c \<or> is_lower c \<or> is_digit c \<or> c = CHR ''_'')"

definition is_space :: "char \<Rightarrow> bool" where
  "is_space c = ((9 \<le> (of_char c :: nat) \<and> (of_char c :: nat) \<le> 13)
               \<or> (28 \<le> (of_char c :: nat) \<and> (of_char c :: nat) \<le> 32))"

definition lower_char :: "char \<Rightarrow> char" where
  "lower_char c = (if is_upper c then char_of ((of_char c :: nat) + 32) else c)"

definition py_lower :: "string \<Rightarrow> string" where
  "py_lower s = map lower_char s"

text \<open>\<open>re.sub(r"\s+", " ", text)\<close>; the flag says that the previous character was whitespace.\<close>

fun collapse_spaces :: "bool \<Rightarrow> string \<Rightarrow> string" where
  "collapse_spaces in_run [] = []"
| "collapse_spaces in_run (c # cs) =
     (if is_space c
      then (if in_run then collapse_spaces True cs else CHR '' '' # collapse_spaces True cs)
      else c # collapse_spaces False cs)"

definition py_strip :: "string \<Rightarrow> string" where
  "py_strip s = rev (dropWhile is_space (rev (dropWhile is_space s)))"

text \<open>\<open>str.split()\<close>: the maximal runs of non-whitespace; \<open>cur\<close> is the run being read, reversed.\<close>

fun split_words :: "string \<Rightarrow> string \<Rightarrow> string list" where
  "split_words cur [] = (if cur = [] then [] else [rev cur])"
| "split_words cur (c # cs) =
     (if is_space c
      then (if cur = [] then split_words [] cs else rev cur # split_words [] cs)
      else split_words (c # cur) cs)"

definition py_split :: "string \<Rightarrow> string list" where
  "py_split s = split_words [] s"

definition normalize_and_tokenize :: "string \<Rightarrow> string list" where
  "normalize_and_tokenize text0 =
     (let text1 = py_lower text0;
          text2 = filter (\<lambda>c. is_word_char c \<or> is_space c \<or> c = CHR 0x27) text1;
          text3 = collapse_spaces False text2;
          text4 = py_strip text3
      in py_split text4)"

subsection \<open>parse\_time and parse\_whisper\_cpp\_result\<close>

text \<open>
  \<open>float\<close> is modelled on the plain decimal numerals whisper.cpp writes (digits, at most
  one point, at least one digit); the other spellings Python accepts (signs, exponents,
  blanks, inf, nan) count as ValueError here. \<open>split_on\<close> is \<open>str.split(sep)\<close>.
\<close>

fun digits_value :: "nat \<Rightarrow> string \<Rightarrow> nat" where
  "digits_value acc [] = acc"
| "digits_value acc (c # cs) = digits_value (10 * acc + ((of_char c :: nat) - 48)) cs"

definition py_float :: "string \<Rightarrow> py_error + real" where
  "py_float s =
     (let ip = takeWhile (\<lambda>c. c \<noteq> CHR ''.'') s;
          rest = dropWhile (\<lambda>c. c \<noteq> CHR ''.'') s;
          fp = (if rest = [] then [] else tl rest)
      in if (ip = [] \<and> fp = []) \<or> \<not> list_all is_digit ip \<or> \<not> list_all is_digit fp
         then Inl ValueError
         else Inr (real (digits_value 0 ip) + real (digits_value 0 fp) / 10 ^ length fp))"

fun split_on :: "char \<Rightarrow> string \<Rightarrow> string \<Rightarrow> string list" where
  "split_on sep cur [] = [rev cur]"
| "split_on sep cur (c # cs) =
     (if c = sep then rev cur # split_on sep [] cs else split_on sep (c # cur) cs)"

definition parse_time :: "string \<Rightarrow> py_error + real" where
  "parse_time time_str =
     (let parts = split_on CHR '':'' [] (map (\<lambda>c. if c = CHR '','' then CHR ''.'' else c) time_str)
      in case parts of
           h # rest1 \<Rightarrow>
             (case py_float h of Inl e \<Rightarrow> Inl e | Inr hours \<Rightarrow>
             (case rest1 of
                [] \<Rightarrow> Inl IndexError
              | m # rest2 \<Rightarrow>
                  (case py_float m of Inl e \<Rightarrow> Inl e | Inr minutes \<Rightarrow>
                  (case rest2 of
                     [] \<Rightarrow> Inl IndexError
                   | s # _ \<Rightarrow>
                       (case py_float s of Inl e \<Rightarrow> Inl e | Inr seconds \<Rightarrow>
                          Inr (hours * 3600 + minutes * 60 + seconds))))))
         | [] \<Rightarrow> Inl IndexError)"

text \<open>
  A token of the whisper.cpp JSON: its keys \<open>text\<close> and \<open>p\<close> may be absent (fields
  \<open>tok_text\<close> and \<open>tok_p\<close>), the two timestamps \<open>from\<close> and \<open>to\<close> are strings. The JSON's \<open>transcription\<close> is a list of segments, each a list of tokens.
\<close>

record token =
  tok_text :: "string option"
  ts_from :: string
  ts_to :: string
  tok_p :: "real option"

record user_segment = segment +
  confidence :: real

definition parse_token :: "token \<Rightarrow> py_error + user_segment list" where
  "parse_token tok =
     (case tok_text tok of
        None \<Rightarrow> Inr []
      | Some t \<Rightarrow>
          if take 1 t = ''['' then Inr []
          else
            let w = py_strip t in
            if w = [] then Inr []
            else
              (case parse_time (ts_from tok) of Inl e \<Rightarrow> Inl e | Inr a \<Rightarrow>
              (case parse_time (ts_to tok) of Inl e \<Rightarrow> Inl e | Inr b \<Rightarrow>
                 Inr [\<lparr>word = w, start_time = a, end_time = b,
                       confidence = (case tok_p tok of None \<Rightarrow> 0 | Some c \<Rightarrow> c)\<rparr>])))"

definition parse_whisper_cpp_result :: "token list list \<Rightarrow> py_error + user_segment list" where
  "parse_whisper_cpp_result transcription =
     (case collect (map parse_token (concat transcription)) of
        Inl e \<Rightarrow> Inl e
      | Inr found \<Rightarrow> Inr (concat found))"

subsection \<open>compute\_char\_lcs\_ratio\<close>

text \<open>
  The table \<open>dp\<close> is built row by row: \<open>lcs_row\<close> fills the cells \<open>dp[i][j]\<close> for
  \<open>j = 1 ..\<close> from the row above (\<open>prev\<close>, starting at \<open>dp[i-1][j-1]\<close>) and from the cell to
  the left.
\<close>

fun lcs_row :: "char \<Rightarrow> string \<Rightarrow> nat list \<Rightarrow> nat \<Rightarrow> nat list" where
  "lcs_row x (y # ys) (diag # up # prev) left =
     (let v = (if x = y then diag + 1 else max up left)
      in v # lcs_row x ys (up # prev) v)"
| "lcs_row x _ _ left = []"

definition lcs_table_last_row :: "string \<Rightarrow> string \<Rightarrow> nat list" where
  "lcs_table_last_row a b =
     foldl (\<lambda>prev x. 0 # lcs_row x b prev 0) (replicate (length b + 1) 0) a"

definition compute_char_lcs_ratio :: "string \<Rightarrow> string \<Rightarrow> real" where
  "compute_char_lcs_ratio a b =
     (let m = length a; n = length b
      in if max m n > 0 then real (last (lcs_table_last_row a b)) / real (max m n) else 0)"

subsection \<open>score\_text\_alignment\<close>

definition word_match_with_normalization :: "string \<Rightarrow> string \<Rightarrow> bool" where
  "word_match_with_normalization ref_word user_word =
     (let ref_normalized = normalize_and_tokenize ref_word;
          user_normalized = normalize_and_tokenize user_word;
          ref_clean = (case ref_normalized of [] \<Rightarrow> [] | t # _ \<Rightarrow> t);
          user_clean = (case user_normalized of [] \<Rightarrow> [] | t # _ \<Rightarrow> t)
      in ref_clean = user_clean)"

definition LCS_THRESH :: real where
  "LCS_THRESH = 6 / 10"

datatype status = Pass | Fail

record text_result =
  tr_word :: string
  tr_status :: status
  lcs_similarity :: real
  tr_confidence :: "real option"

text \<open>\<open>max(candidates, key=...)\<close> returns the first candidate whose key is maximal.\<close>

fun max_by :: "('a \<Rightarrow> real) \<Rightarrow> 'a \<Rightarrow> 'a list \<Rightarrow> 'a" where
  "max_by key best [] = best"
| "max_by key best (x # xs) = max_by key (if key x > key best then x else best) xs"

definition align_word :: "user_segment list \<Rightarrow> 'a segment_scheme \<Rightarrow> text_result" where
  "align_word user_normalized ref =
     (let tol = 25 / 100;
          start_tol = 5 / 10;
          window_start = start_time ref - tol;
          window_end = end_time ref + tol;
          candidates = filter (\<lambda>user. \<not> (end_time user < window_start
                                          \<or> start_time user > window_end)) user_normalized
      in case candidates of
           [] \<Rightarrow> \<lparr>tr_word = word ref, tr_status = Fail, lcs_similarity = 0,
                  tr_confidence = Some 0\<rparr>
         | c # cs \<Rightarrow>
             (let best_user = max_by (\<lambda>user. min window_end (end_time user)
                                             - max window_start (start_time user)) c cs;
                  lcs_sim = (if word_match_with_normalization (word ref) (word best_user)
                             then 1
                             else compute_char_lcs_ratio (word ref) (word best_user))
              in if lcs_sim < LCS_THRESH
                 then \<lparr>tr_word = word ref, tr_status = Fail, lcs_similarity = lcs_sim,
                       tr_confidence = None\<rparr>
                 else
                   (let start_ok = (\<bar>start_time best_user - start_time ref\<bar> \<le> start_tol);
                        overlap = min window_end (end_time best_user)
                                  - max window_start (start_time best_user);
                        ref_dur = end_time ref - start_time ref;
                        ratio = (if ref_dur \<noteq> 0 then overlap / ref_dur else 0)
                    in \<lparr>tr_word = word ref,
                        tr_status = (if start_ok \<and> ratio \<ge> 70 / 100 then Pass else Fail),
                        lcs_similarity = lcs_sim,
                        tr_confidence = Some (confidence best_user)\<rparr>)))"

definition score_text_alignment ::
  "'a segment_scheme list \<Rightarrow> token list list \<Rightarrow> py_error + text_result list" where
  "score_text_alignment reference_segments user_whisper_json =
     (case parse_whisper_cpp_result user_whisper_json of
        Inl e \<Rightarrow> Inl e
      | Inr user_segments \<Rightarrow>
          (let user_normalized = normalize_segments_to_zero user_segments;
               ref_normalized = normalize_segments_to_zero reference_segments
           in Inr (map (align_word user_normalized) ref_normalized)))"

section \<open>mfcc\_similarity.py\<close>

subsection \<open>Score calibration\<close>

text \<open>
  \<open>np.interp(x, xp, fp)\<close> for increasing \<open>xp\<close>: the value of \<open>fp\<close> at the first anchor
  to the left of the range, at the last anchor to the right of it, and the straight line
  between the two neighbouring anchors inside (\<open>slope * (x - xp[j]) + fp[j]\<close>).
  \<open>interp_walk\<close> finds the interval by walking the anchors from the left.
\<close>

definition sim_points :: "real list" where
  "sim_points = [0.00, 0.02, 0.05, 0.08, 0.09, 0.10, 0.30, 0.40, 0.53, 1.00]"

definition score_points :: "real list" where
  "score_points = [0.0, 0.0, 40.0, 50.0, 60.0, 70.0, 80.0, 90.0, 100.0, 100.0]"

fun interp_walk :: "real \<Rightarrow> (real \<times> real) list \<Rightarrow> real" where
  "interp_walk x [] = 0"
| "interp_walk x [(a, b)] = b"
| "interp_walk x ((a, b) # (c, d) # ps) =
     (if x < c then (d - b) / (c - a) * (x - a) + b
      else interp_walk x ((c, d) # ps))"

definition np_interp :: "real \<Rightarrow> real list \<Rightarrow> real list \<Rightarrow> real" where
  "np_interp x xp fp =
     (if x > last xp then last fp
      else if x < hd xp then hd fp
      else interp_walk x (zip xp fp))"

definition continuous_score :: "real \<Rightarrow> real" where
  "continuous_score similarity = np_interp similarity sim_points score_points"

text \<open>Anchor tables whose abscissae increase strictly and whose ordinates never fall.\<close>

fun rising :: "(real \<times> real) list \<Rightarrow> bool" where
  "rising ((a, b) # (c, d) # ps) = (a < c \<and> b \<le> d \<and> rising ((c, d) # ps))"
| "rising _ = True"

subsection \<open>Feature matrices\<close>

text \<open>
  A feature matrix is a numpy array of shape (frames, coefficients): a list of frames,
  each the list of its coefficients. \<open>length m\<close> is \<open>m.shape[0]\<close>, \<open>ncols m\<close> is
  \<open>m.shape[1]\<close> of an array with at least one frame, \<open>column m j\<close> is \<open>m[:, j]\<close>.
  \<open>np.mean\<close> and \<open>np.std\<close> (population standard deviation) are taken along axis 0,
  that is column by column.
\<close>

type_synonym matrix = "real list list"

definition ncols :: "matrix \<Rightarrow> nat" where
  "ncols m = length (hd m)"

definition column :: "matrix \<Rightarrow> nat \<Rightarrow> real list" where
  "column m j = map (\<lambda>row. row ! j) m"

definition np_mean :: "real list \<Rightarrow> real" where
  "np_mean xs = sum_list xs / real (length xs)"

definition np_std :: "real list \<Rightarrow> real" where
  "np_std xs = sqrt (np_mean (map (\<lambda>x. (x - np_mean xs)\<^sup>2) xs))"

text \<open>\<open>_apply_cmvn\<close>: every column is centred and divided by its deviation plus 1e-9.\<close>

definition apply_cmvn :: "matrix \<Rightarrow> matrix" where
  "apply_cmvn mfcc =
     (if length mfcc = 0 then mfcc
      else map (\<lambda>row. map (\<lambda>j. (row ! j - np_mean (column mfcc j))
                                   / (np_std (column mfcc j) + 1 / 10 ^ 9))
                           [0 ..< ncols mfcc]) mfcc)"

text \<open>
  \<open>_add_delta_features\<close>. \<open>librosa.feature.delta\<close> is a library routine; it enters as the
  parameter \<open>delta order width\<close>, applied to a (frames, coefficients) matrix and returning
  one of the same shape. \<open>hstack3\<close> is \<open>np.concatenate([a, b, c], axis=1)\<close>.
\<close>

definition hstack3 :: "matrix \<Rightarrow> matrix \<Rightarrow> matrix \<Rightarrow> matrix" where
  "hstack3 a b c = map (\<lambda>(x, y, z). x @ y @ z) (zip a (zip b c))"

definition add_delta_features :: "(nat \<Rightarrow> nat \<Rightarrow> matrix \<Rightarrow> matrix) \<Rightarrow> matrix \<Rightarrow> matrix" where
  "add_delta_features delta mfcc =
     (if length mfcc = 0 then []
      else
        let n_frames = length mfcc in
        if n_frames < 5 then
          (let pad_size = 5 - n_frames;
               padded_mfcc = replicate pad_size (hd mfcc) @ mfcc @ replicate pad_size (last mfcc);
               delta_mfcc = take n_frames (drop pad_size (delta 1 3 padded_mfcc));
               delta2_mfcc = take n_frames (drop pad_size (delta 2 3 padded_mfcc))
           in hstack3 mfcc delta_mfcc delta2_mfcc)
        else if n_frames < 9 then
          (let width = max 3 (if n_frames mod 2 = 1 then n_frames else n_frames - 1)
           in hstack3 mfcc (delta 1 width mfcc) (delta 2 width mfcc))
        else hstack3 mfcc (delta 1 9 mfcc) (delta 2 9 mfcc))"

text \<open>\<open>_pad_reference_mfcc\<close>: \<open>np.pad\<close> in edge mode repeats the last frame.\<close>

definition pad_reference_mfcc :: "matrix \<Rightarrow> nat \<Rightarrow> matrix" where
  "pad_reference_mfcc mfcc target_length =
     (if length mfcc \<ge> target_length then mfcc
      else mfcc @ replicate (target_length - length mfcc) (last mfcc))"

text \<open>\<open>_calculate_std_deviation\<close>: mean of the deviations of the first 13 columns.\<close>

definition calculate_std_deviation :: "matrix \<Rightarrow> real" where
  "calculate_std_deviation mfcc =
     (if length mfcc = 0 then 0
      else if ncols mfcc \<ge> 13
        then np_mean (map (\<lambda>j. np_std (column mfcc j)) [0 ..< 13])
        else np_mean (map (\<lambda>j. np_std (column mfcc j)) [0 ..< ncols mfcc]))"

text \<open>
  Elementwise numpy arithmetic on two rows: equal lengths pair up, a row of length one is
  stretched, anything else raises (caught by the \<open>except\<close> of the caller).
\<close>

definition broadcast_row ::
  "(real \<Rightarrow> real \<Rightarrow> real) \<Rightarrow> real list \<Rightarrow> real list \<Rightarrow> py_error + real list" where
  "broadcast_row f r s =
     (if length r = length s then Inr (map2 f r s)
      else if length r = 1 then Inr (map (f (hd r)) s)
      else if length s = 1 then Inr (map (\<lambda>x. f x (hd s)) r)
      else Inl ValueError)"

definition scale_columns :: "matrix \<Rightarrow> real list \<Rightarrow> py_error + matrix" where
  "scale_columns m w = collect (map (\<lambda>row. broadcast_row (*) row w) m)"

definition subtract_frames :: "matrix \<Rightarrow> matrix \<Rightarrow> py_error + matrix" where
  "subtract_frames a b = collect (map (\<lambda>(r, s). broadcast_row (-) r s) (zip a b))"

text \<open>
  \<open>frame_wise_euclidean_similarity\<close>, in the order of the source: the two guards, the
  ratio of deviations (\<open>std_ratio_of\<close>), the omission short-circuit, and the main path:
  delta features when the matrix has 13 columns (\<open>with_deltas\<close>), normalisation
  (\<open>segment_norm\<close>, the call of \<open>_apply_cmvn\<close>), the weights, the padding of the shorter
  segment, the mean frame distance, the similarity and its penalty
  (\<open>weighted_distance_similarity\<close>). An exception inside the \<open>try\<close> yields 0.0.
\<close>

definition std_ratio_of :: "matrix \<Rightarrow> matrix \<Rightarrow> real" where
  "std_ratio_of ref_mfcc user_mfcc =
     (let ref_std = calculate_std_deviation ref_mfcc;
          user_std = calculate_std_deviation user_mfcc
      in if ref_std > 0 then user_std / ref_std else 0)"

definition with_deltas :: "(nat \<Rightarrow> nat \<Rightarrow> matrix \<Rightarrow> matrix) \<Rightarrow> matrix \<Rightarrow> matrix" where
  "with_deltas delta mfcc = (if ncols mfcc = 13 then add_delta_features delta mfcc else mfcc)"

definition segment_norm :: "(nat \<Rightarrow> nat \<Rightarrow> matrix \<Rightarrow> matrix) \<Rightarrow> matrix \<Rightarrow> matrix" where
  "segment_norm delta mfcc = apply_cmvn (with_deltas delta mfcc)"

definition weighted_distance_similarity ::
  "(nat \<Rightarrow> nat \<Rightarrow> matrix \<Rightarrow> matrix) \<Rightarrow> real \<Rightarrow> matrix \<Rightarrow> matrix \<Rightarrow> py_error + real" where
  "weighted_distance_similarity delta std_ratio ref_mfcc user_mfcc =
     (let ref_norm = segment_norm delta ref_mfcc;
          user_norm = segment_norm delta user_mfcc;
          d = ncols ref_norm div 3;
          w = replicate d (3 / 2) @ replicate d (8 / 10) @ replicate d (3 / 10)
      in case scale_columns ref_norm w of
           Inl e \<Rightarrow> Inl e
         | Inr ref_w \<Rightarrow>
        (case scale_columns user_norm w of
           Inl e \<Rightarrow> Inl e
         | Inr user_w \<Rightarrow>
        (case (if length ref_w \<noteq> length user_w
               then (if length ref_w > length user_w
                     then (ref_w, pad_reference_mfcc user_w (length ref_w))
                     else (pad_reference_mfcc ref_w (length user_w), user_w))
               else (ref_w, user_w)) of
           (ref_p, user_p) \<Rightarrow>
        (case subtract_frames ref_p user_p of
           Inl e \<Rightarrow> Inl e
         | Inr diff \<Rightarrow>
             (let frame_distances = map (\<lambda>row. sqrt (sum_list (map (\<lambda>x. x\<^sup>2) row))) diff;
                  mean_distance = np_mean frame_distances;
                  similarity = 1 / (1 + mean_distance)
              in Inr (if std_ratio < 1
                      then similarity * (1 - (1 - std_ratio) * (3 / 10))
                      else similarity))))))"

definition frame_wise_euclidean_similarity ::
  "(nat \<Rightarrow> nat \<Rightarrow> matrix \<Rightarrow> matrix) \<Rightarrow> matrix \<Rightarrow> matrix \<Rightarrow> real" where
  "frame_wise_euclidean_similarity delta ref_mfcc user_mfcc =
     (if length ref_mfcc = 0 \<or> length user_mfcc = 0 then 0
      else if length ref_mfcc < 5 \<or> length user_mfcc < 5 then 0
      else
        let std_ratio = std_ratio_of ref_mfcc user_mfcc in
        if std_ratio < 1 / 2 then
          (let penalty_factor = 1 - std_ratio / (1 / 2)
           in (5 / 100) * (1 - penalty_factor))
        else
          (case weighted_distance_similarity delta std_ratio ref_mfcc user_mfcc of
             Inl e \<Rightarrow> 0
           | Inr similarity \<Rightarrow> similarity))"

text \<open>
  Vocabulary of the statements: a feature matrix has 13 or 39 coefficients in every frame;
  \<open>keeps_shape\<close> says the library's delta returns a matrix shaped like its argument;
  \<open>rect d m\<close> says every frame of \<open>m\<close> has \<open>d\<close> coefficients.
\<close>

definition is_feature_matrix :: "matrix \<Rightarrow> bool" where
  "is_feature_matrix m = ((\<forall>row \<in> set m. length row = 13) \<or> (\<forall>row \<in> set m. length row = 39))"

definition keeps_shape :: "(nat \<Rightarrow> nat \<Rightarrow> matrix \<Rightarrow> matrix) \<Rightarrow> matrix \<Rightarrow> bool" where
  "keeps_shape delta m = (\<forall>order width. map length (delta order width m) = map length m)"

definition rect :: "nat \<Rightarrow> matrix \<Rightarrow> bool" where
  "rect d m = (\<forall>row \<in> set m. length row = d)"

text \<open>
  \<open>cmvn_with_c0_clipping\<close>, with \<open>np.percentile\<close> in its default linear interpolation
  between the two order statistics around the position \<open>q / 100 * (n - 1)\<close>, and
  \<open>np.clip\<close>.
\<close>

definition np_percentile :: "real list \<Rightarrow> real \<Rightarrow> real" where
  "np_percentile xs q =
     (let s = sort xs;
          h = q / 100 * (real (length xs) - 1);
          lo = nat \<lfloor>h\<rfloor>;
          hi = min (lo + 1) (length xs - 1)
      in s ! lo + (s ! hi - s ! lo) * (h - real lo))"

definition np_clip :: "real \<Rightarrow> real \<Rightarrow> real \<Rightarrow> real" where
  "np_clip x lo hi = min (max x lo) hi"

definition cmvn_with_c0_clipping :: "matrix \<Rightarrow> matrix" where
  "cmvn_with_c0_clipping mfcc =
     (if length mfcc = 0 then mfcc
      else
        let rest = map tl mfcc;
            rest_norm = map (\<lambda>row. map (\<lambda>j. (row ! j - np_mean (column rest j))
                                             / (np_std (column rest j) + 1 / 10 ^ 9))
                                     [0 ..< ncols rest]) rest;
            c0 = column mfcc 0;
            c0_min = np_percentile c0 5;
            c0_max = np_percentile c0 95;
            c0_norm = (if c0_max - c0_min < 1 / 10 ^ 6
                       then map (\<lambda>_. 1 / 2) c0
                       else map (\<lambda>x. (np_clip x c0_min c0_max - c0_min) / (c0_max - c0_min)) c0)
        in map (\<lambda>(e, row). e # row) (zip c0_norm rest_norm))"

text \<open>
  The comparison with the normalisation left open: \<open>compare_segments_with scheme\<close> is the
  body of \<open>frame_wise_euclidean_similarity\<close> (lines 185-292) with \<open>scheme\<close> at the two
  places where the source calls \<open>_apply_cmvn\<close> (lines 247-248), and
  \<open>distance_similarity_with scheme\<close> is its main path. The source is the instance
  \<open>scheme = apply_cmvn\<close>. The specification words the main path with the CMVN+clip scheme
  instead: \<open>spec_compare_segments\<close> is that reading, the instance
  \<open>scheme = cmvn_with_c0_clipping\<close>.
\<close>

definition distance_similarity_with ::
  "(matrix \<Rightarrow> matrix) \<Rightarrow> (nat \<Rightarrow> nat \<Rightarrow> matrix \<Rightarrow> matrix) \<Rightarrow> real \<Rightarrow> matrix \<Rightarrow> matrix
     \<Rightarrow> py_error + real" where
  "distance_similarity_with scheme delta std_ratio ref_mfcc user_mfcc =
     (let ref_norm = scheme (with_deltas delta ref_mfcc);
          user_norm = scheme (with_deltas delta user_mfcc);
          d = ncols ref_norm div 3;
          w = replicate d (3 / 2) @ replicate d (8 / 10) @ replicate d (3 / 10)
      in case scale_columns ref_norm w of
           Inl e \<Rightarrow> Inl e
         | Inr ref_w \<Rightarrow>
        (case scale_columns user_norm w of
           Inl e \<Rightarrow> Inl e
         | Inr user_w \<Rightarrow>
        (case (if length ref_w \<noteq> length user_w
               then (if length ref_w > length user_w
                     then (ref_w, pad_reference_mfcc user_w (length ref_w))
                     else (pad_reference_mfcc ref_w (length user_w), user_w))
               else (ref_w, user_w)) of
           (ref_p, user_p) \<Rightarrow>
        (case subtract_frames ref_p user_p of
           Inl e \<Rightarrow> Inl e
         | Inr diff \<Rightarrow>
             (let frame_distances = map (\<lambda>row. sqrt (sum_list (map (\<lambda>x. x\<^sup>2) row))) diff;
                  mean_distance = np_mean frame_distances;
                  similarity = 1 / (1 + mean_distance)
              in Inr (if std_ratio < 1
                      then similarity * (1 - (1 - std_ratio) * (3 / 10))
                      else similarity))))))"

definition compare_segments_with ::
  "(matrix \<Rightarrow> matrix) \<Rightarrow> (nat \<Rightarrow> nat \<Rightarrow> matrix \<Rightarrow> matrix) \<Rightarrow> matrix \<Rightarrow> matrix \<Rightarrow> real" where
  "compare_segments_with scheme delta ref_mfcc user_mfcc =
     (if length ref_mfcc = 0 \<or> length user_mfcc = 0 then 0
      else if length ref_mfcc < 5 \<or> length user_mfcc < 5 then 0
      else
        let std_ratio = std_ratio_of ref_mfcc user_mfcc in
        if std_ratio < 1 / 2 then
          (let penalty_factor = 1 - std_ratio / (1 / 2)
           in (5 / 100) * (1 - penalty_factor))
        else
          (case distance_similarity_with scheme delta std_ratio ref_mfcc user_mfcc of
             Inl e \<Rightarrow> 0
           | Inr sim \<Rightarrow> sim))"

definition spec_compare_segments ::
  "(nat \<Rightarrow> nat \<Rightarrow> matrix \<Rightarrow> matrix) \<Rightarrow> matrix \<Rightarrow> matrix \<Rightarrow> real" where
  "spec_compare_segments = compare_segments_with cmvn_with_c0_clipping"

text \<open>
  Vocabulary for the value of the main path: \<open>block_weights\<close> is the weight vector of
  lines 251-254 at 39 coefficients, \<open>cmvn_entry a i j\<close> the entry that \<open>_apply_cmvn\<close> puts
  in frame \<open>i\<close> and column \<open>j\<close>, and \<open>table n d f\<close> the matrix of \<open>n\<close> frames and \<open>d\<close>
  columns with entries \<open>f i j\<close>.
\<close>

definition block_weights :: "real list" where
  "block_weights = replicate 13 (3 / 2) @ replicate 13 (8 / 10) @ replicate 13 (3 / 10)"

definition cmvn_entry :: "matrix \<Rightarrow> nat \<Rightarrow> nat \<Rightarrow> real" where
  "cmvn_entry a i j = (a ! i ! j - np_mean (column a j)) / (np_std (column a j) + 1 / 10 ^ 9)"

definition table :: "nat \<Rightarrow> nat \<Rightarrow> (nat \<Rightarrow> nat \<Rightarrow> real) \<Rightarrow> matrix" where
  "table n d f = map (\<lambda>i. map (f i) [0 ..< d]) [0 ..< n]"

text \<open>
  Two six-frame, 39-coefficient segments. In \<open>flat_energy\<close> the energy column is constant
  and the first shape coefficient alternates between 1 and -1; in \<open>lively_energy\<close> both
  columns alternate.
\<close>

definition flat_energy :: matrix where
  "flat_energy = map (\<lambda>s. [1, s] @ replicate 37 0) [1, - 1, 1, - 1, 1, - 1]"

definition lively_energy :: matrix where
  "lively_energy = map (\<lambda>s. [s, s] @ replicate 37 0) [1, - 1, 1, - 1, 1, - 1]"
subsection \<open>extract\_mfcc\_segment\<close>

text \<open>
  \<open>np.searchsorted\<close> on an ascending array: with side left the number of elements below
  the value, with side right the number of elements not above it. The slice
  \<open>mfcc[start_idx:end_idx]\<close> is \<open>drop start_idx (take end_idx mfcc)\<close>; the empty array
  \<open>np.array([])\<close> is the empty list.
\<close>

definition searchsorted_left :: "real list \<Rightarrow> real \<Rightarrow> nat" where
  "searchsorted_left a v = length (takeWhile (\<lambda>t. t < v) a)"

definition searchsorted_right :: "real list \<Rightarrow> real \<Rightarrow> nat" where
  "searchsorted_right a v = length (takeWhile (\<lambda>t. t \<le> v) a)"

definition extract_mfcc_segment :: "matrix \<Rightarrow> real list \<Rightarrow> real \<Rightarrow> real \<Rightarrow> matrix" where
  "extract_mfcc_segment mfcc frame_times start_sec end_sec =
     (let start_idx = max 0 (searchsorted_left frame_times start_sec);
          end_idx = min (length mfcc) (searchsorted_right frame_times end_sec);
          MIN_FRAMES = 5
      in if int end_idx - int start_idx < MIN_FRAMES then []
         else drop start_idx (take end_idx mfcc))"

text \<open>Four frames of 13 coefficients, 10 ms apart.\<close>

definition four_frames :: matrix where
  "four_frames = map (replicate 13) [1, 2, 3, 4]"

definition four_times :: "real list" where
  "four_times = [0, 1 / 100, 2 / 100, 3 / 100]"

section \<open>pronunciation.py\<close>

subsection \<open>Rounding\<close>

text \<open>
  \<open>round(x, n)\<close> on the reals: to the nearest multiple of \<open>10 ^ -n\<close>, a tie going to
  the even neighbour.
\<close>

definition round_half_even :: "real \<Rightarrow> int" where
  "round_half_even x =
     (let f = \<lfloor>x\<rfloor>; d = x - of_int f
      in if d < 1 / 2 then f
         else if d > 1 / 2 then f + 1
         else if even f then f else f + 1)"

definition py_round :: "real \<Rightarrow> nat \<Rightarrow> real" where
  "py_round x ndigits = of_int (round_half_even (x * 10 ^ ndigits)) / 10 ^ ndigits"

subsection \<open>Double arithmetic\<close>

text \<open>
  Where a sum or product is rounded to decimals afterwards, the last bit of the double
  decides, so the aggregation computes as the doubles do: \<open>double_of x\<close> is the double
  nearest to the real \<open>x\<close>, a tie going to the even mantissa (53 bits in the binade of
  \<open>x\<close>, the fixed spacing \<open>2 ^ -1074\<close> below \<open>2 ^ -1022\<close>; the values here stay far
  from the overflow range). A literal \<open>0.7\<close> is \<open>double_of (7 / 10)\<close>, a product of
  two doubles is \<open>double_of (a * b)\<close>, and likewise for sums and quotients.
  \<open>py_round x 3\<close> of a double \<open>x\<close> is the decimal that \<open>round(x, 3)\<close> denotes.
\<close>

definition pow2 :: "int \<Rightarrow> real" where
  "pow2 k = (if 0 \<le> k then 2 ^ nat k else 1 / 2 ^ nat (- k))"

definition binade :: "real \<Rightarrow> int" where
  "binade x = \<lfloor>log 2 \<bar>x\<bar>\<rfloor>"

definition double_of :: "real \<Rightarrow> real" where
  "double_of x =
     (if x = 0 then 0
      else let q = pow2 (max (binade x) (- 1022) - 52)
           in of_int (round_half_even (x / q)) * q)"

subsection \<open>analyze\_time\_overlap\<close>

definition calculate_time_overlap :: "real \<Rightarrow> real \<Rightarrow> real \<Rightarrow> real \<Rightarrow> real \<times> real" where
  "calculate_time_overlap r_start r_end u_start u_end =
     (let overlap_start = max r_start u_start;
          overlap_end = min r_end u_end
      in if overlap_start \<ge> overlap_end then (0, 0)
         else
           let overlap_duration = overlap_end - overlap_start;
               ref_duration = r_end - r_start;
               ratio = (if ref_duration > 0 then overlap_duration / ref_duration else 0)
           in (overlap_duration, ratio))"

text \<open>\<open>log_time_overlap_analysis\<close> prints and returns whether the ratio reaches the threshold.\<close>

definition log_time_overlap_analysis :: "real \<Rightarrow> real \<Rightarrow> bool" where
  "log_time_overlap_analysis ratio threshold = (ratio \<ge> threshold)"

record time_match_record =
  tm_word :: string
  time_match :: bool
  overlap_ratio :: real
  ref_start :: real
  ref_end :: real
  user_start :: "real option"
  user_end :: "real option"

text \<open>
  The dict comprehension \<open>{normalize_and_tokenize(item['word'])[0]: item for item in ...}\<close>:
  the items are stored in list order, a later item replacing an earlier one under the
  same key; \<open>[0]\<close> on an empty token list raises IndexError.
\<close>

fun user_words_dict ::
  "(string \<rightharpoonup> 'a segment_scheme) \<Rightarrow> 'a segment_scheme list
     \<Rightarrow> py_error + (string \<rightharpoonup> 'a segment_scheme)" where
  "user_words_dict d [] = Inr d"
| "user_words_dict d (item # items) =
     (case normalize_and_tokenize (word item) of
        [] \<Rightarrow> Inl IndexError
      | key # _ \<Rightarrow> user_words_dict (d(key \<mapsto> item)) items)"

definition time_overlap_word ::
  "real \<Rightarrow> (string \<rightharpoonup> 'a segment_scheme) \<Rightarrow> 'b segment_scheme
     \<Rightarrow> py_error + time_match_record" where
  "time_overlap_word threshold user_words ref_word_data =
     (let ref_word = word ref_word_data;
          ref_start = start_time ref_word_data;
          ref_end = end_time ref_word_data
      in case normalize_and_tokenize ref_word of
           [] \<Rightarrow> Inl IndexError
         | ref_key # _ \<Rightarrow>
             (case user_words ref_key of
                Some user_match \<Rightarrow>
                  (let user_start = start_time user_match;
                       user_end = end_time user_match;
                       overlap_ratio = snd (calculate_time_overlap ref_start ref_end
                                              user_start user_end);
                       is_time_match = log_time_overlap_analysis overlap_ratio threshold
                   in Inr \<lparr>tm_word = ref_word, time_match = is_time_match,
                            overlap_ratio = overlap_ratio, ref_start = ref_start,
                            ref_end = ref_end, user_start = Some user_start,
                            user_end = Some user_end\<rparr>)
              | None \<Rightarrow>
                  Inr \<lparr>tm_word = ref_word, time_match = False, overlap_ratio = 0,
                        ref_start = ref_start, ref_end = ref_end,
                        user_start = None, user_end = None\<rparr>))"

definition analyze_time_overlap ::
  "'b segment_scheme list \<Rightarrow> 'a segment_scheme list \<Rightarrow> real
     \<Rightarrow> py_error + time_match_record list" where
  "analyze_time_overlap reference_words user_word_timestamps threshold =
     (case user_words_dict Map.empty user_word_timestamps of
        Inl e \<Rightarrow> Inl e
      | Inr user_words \<Rightarrow>
          collect (map (time_overlap_word threshold user_words) reference_words))"

text \<open>The first normalised token of a word, the key under which it is stored and looked up.\<close>

definition first_token :: "string \<Rightarrow> string" where
  "first_token w = hd (normalize_and_tokenize w)"

text \<open>The user words stored under the key of the word \<open>w\<close>, in the order recognised.\<close>

definition same_key_users :: "'a segment_scheme list \<Rightarrow> string \<Rightarrow> 'a segment_scheme list" where
  "same_key_users users w = filter (\<lambda>u. first_token (word u) = first_token w) users"

text \<open>A recognition with two occurrences of the same word, the second one four seconds later.\<close>

definition the_cat_the :: "segment list" where
  "the_cat_the = [\<lparr>word = ''The'', start_time = 0, end_time = 1\<rparr>,
                  \<lparr>word = ''cat'', start_time = 1, end_time = 2\<rparr>,
                  \<lparr>word = ''the'', start_time = 5, end_time = 6\<rparr>]"

subsection \<open>generate\_comprehensive\_results\<close>

text \<open>
  An entry of \<open>compare_mfcc_segments\<close>' result; the aggregation reads \<open>adjusted_score\<close>
  and \<open>similarity\<close> with \<open>in\<close> and \<open>get\<close>, so either may be absent.
\<close>

record mfcc_result =
  mr_word :: string
  similarity :: "real option"
  adjusted_score :: "real option"

record word_analysis_entry =
  wa_word :: string
  text_status :: status
  wa_time_match :: bool
  wa_overlap_ratio :: real
  mfcc_similarity :: real
  word_score :: real

text \<open>The variables the loop over the reference words updates.\<close>

record loop_state =
  word_analysis :: "word_analysis_entry list"
  text_pass_count :: nat
  time_pass_count :: nat
  stt_failures :: "string list"
  time_failures :: "(string \<times> real) list"
  mfcc_low_quality :: "(string \<times> real) list"

record summary =
  text_accuracy :: real
  time_accuracy :: real
  mfcc_average :: real
  total_words :: nat
  passed_words :: nat
  time_matched_words :: nat

record report =
  overall_score :: real
  rp_word_analysis :: "word_analysis_entry list"
  rp_summary :: summary
  fa_stt_failures :: "string list"
  fa_time_failures :: "string list"
  fa_mfcc_low_quality :: "string list"

text \<open>
  The MFCC value of word \<open>i\<close>: the calibrated \<open>adjusted_score\<close> when the entry has one,
  else its \<open>similarity\<close>, and 0.0 when there is no entry.
\<close>

definition mfcc_value :: "mfcc_result list \<Rightarrow> nat \<Rightarrow> real" where
  "mfcc_value mfcc_comparison_result i =
     (if i < length mfcc_comparison_result
      then (case adjusted_score (mfcc_comparison_result ! i) of
              Some a \<Rightarrow> a
            | None \<Rightarrow> (case similarity (mfcc_comparison_result ! i) of
                          Some s \<Rightarrow> s | None \<Rightarrow> 0))
      else 0)"

text \<open>
  One pass of the loop body for the word at index \<open>i\<close>. \<open>text_comparison_result[i]\<close> is
  read without a bound check for the confidence, hence the IndexError.
\<close>

definition results_step ::
  "text_result list \<Rightarrow> mfcc_result list \<Rightarrow> time_match_record list
     \<Rightarrow> loop_state \<Rightarrow> nat \<times> string \<Rightarrow> py_error + loop_state" where
  "results_step text_comparison_result mfcc_comparison_result time_matching_results st iw =
     (case iw of (i, w) \<Rightarrow>
      let t_status = (if i < length text_comparison_result
                      then tr_status (text_comparison_result ! i) else Fail);
          time_result = (if i < length time_matching_results
                         then Some (time_matching_results ! i) else None);
          t_match = (case time_result of Some t \<Rightarrow> time_match t | None \<Rightarrow> False);
          o_ratio = (case time_result of Some t \<Rightarrow> overlap_ratio t | None \<Rightarrow> 0);
          mfcc_sim = mfcc_value mfcc_comparison_result i
      in if \<not> i < length text_comparison_result then Inl IndexError
         else
           let confidence = (case tr_confidence (text_comparison_result ! i) of
                               Some c \<Rightarrow> c | None \<Rightarrow> 0);
               text_score = (if t_status = Pass then confidence else 0);
               w_score = double_of (double_of (text_score * double_of (7 / 10))
                                    + double_of (mfcc_sim * double_of (3 / 10)));
               entry = \<lparr>wa_word = w, text_status = t_status, wa_time_match = t_match,
                        wa_overlap_ratio = py_round o_ratio 3,
                        mfcc_similarity = py_round mfcc_sim 3,
                        word_score = py_round w_score 3\<rparr>;
               stt = (case time_result of Some t \<Rightarrow> user_start t = None | None \<Rightarrow> False);
               tfail = (\<not> stt \<and> \<not> t_match
                        \<and> (case time_result of Some t \<Rightarrow> user_start t \<noteq> None
                                                | None \<Rightarrow> False))
           in Inr (st\<lparr>word_analysis := word_analysis st @ [entry],
                      text_pass_count := text_pass_count st + (if t_status = Pass then 1 else 0),
                      time_pass_count := time_pass_count st + (if t_match then 1 else 0),
                      stt_failures := stt_failures st @ (if stt then [w] else []),
                      time_failures := time_failures st @ (if tfail then [(w, o_ratio)] else []),
                      mfcc_low_quality := mfcc_low_quality st
                         @ (if mfcc_sim < 4 / 10 then [(w, mfcc_sim)] else [])\<rparr>))"

fun results_loop ::
  "text_result list \<Rightarrow> mfcc_result list \<Rightarrow> time_match_record list
     \<Rightarrow> loop_state \<Rightarrow> (nat \<times> string) list \<Rightarrow> py_error + loop_state" where
  "results_loop tx mf tm st [] = Inr st"
| "results_loop tx mf tm st (iw # rest) =
     (case results_step tx mf tm st iw of
        Inl e \<Rightarrow> Inl e
      | Inr st' \<Rightarrow> results_loop tx mf tm st' rest)"

text \<open>
  The built-in \<open>sum\<close> over a list of doubles enters as the parameter \<open>py_sum\<close>: it
  adds from left to right in the older interpreters and with a compensation term in the
  newer ones.
\<close>

definition generate_comprehensive_results ::
  "(real list \<Rightarrow> real) \<Rightarrow> string list \<Rightarrow> text_result list \<Rightarrow> mfcc_result list
     \<Rightarrow> time_match_record list \<Rightarrow> py_error + report" where
  "generate_comprehensive_results py_sum reference_words text_comparison_result
       mfcc_comparison_result time_matching_results =
     (case results_loop text_comparison_result mfcc_comparison_result time_matching_results
             \<lparr>word_analysis = [], text_pass_count = 0, time_pass_count = 0,
              stt_failures = [], time_failures = [], mfcc_low_quality = []\<rparr>
             (enumerate 0 reference_words) of
        Inl e \<Rightarrow> Inl e
      | Inr st \<Rightarrow>
          (let n = length reference_words;
               t_accuracy = (if reference_words \<noteq> []
                             then double_of (real (text_pass_count st) / real n) else 0);
               tm_accuracy = (if reference_words \<noteq> []
                              then double_of (real (time_pass_count st) / real n) else 0);
               mfcc_total = py_sum (map mfcc_similarity (word_analysis st));
               mfcc_avg = (if word_analysis st \<noteq> []
                           then double_of (mfcc_total / real (length (word_analysis st)))
                           else 0);
               score_total = py_sum (map word_score (word_analysis st));
               overall = (if word_analysis st \<noteq> []
                          then double_of (score_total / real (length (word_analysis st)))
                          else 0)
           in Inr \<lparr>overall_score = py_round overall 3,
                    rp_word_analysis = word_analysis st,
                    rp_summary = \<lparr>text_accuracy = py_round t_accuracy 3,
                                   time_accuracy = py_round tm_accuracy 3,
                                   mfcc_average = py_round mfcc_avg 3,
                                   total_words = n,
                                   passed_words = text_pass_count st,
                                   time_matched_words = time_pass_count st\<rparr>,
                    fa_stt_failures = stt_failures st,
                    fa_time_failures = map fst (time_failures st),
                    fa_mfcc_low_quality = map fst (mfcc_low_quality st)\<rparr>))"

text \<open>
  The score the report holds for word \<open>i\<close>: the weighted sum of the text score and the
  MFCC value as the doubles compute it, rounded to three decimals.
\<close>

definition rounded_score :: "text_result list \<Rightarrow> mfcc_result list \<Rightarrow> nat \<Rightarrow> real" where
  "rounded_score tx mf i =
     py_round
       (double_of
          (double_of ((if tr_status (tx ! i) = Pass
                       then (case tr_confidence (tx ! i) of Some c \<Rightarrow> c | None \<Rightarrow> 0)
                       else 0) * double_of (7 / 10))
           + double_of (mfcc_value mf i * double_of (3 / 10)))) 3"

text \<open>
  One-word runs: the text comparison passes with confidence 0.9999 (\<open>sure_cat\<close>) or
  0.905 (\<open>likely_cat\<close>), the MFCC comparison gives similarity 0 and calibrated score 0.
\<close>

definition sure_cat :: "text_result list" where
  "sure_cat = [\<lparr>tr_word = ''cat'', tr_status = Pass, lcs_similarity = 1,
                tr_confidence = Some (double_of (9999 / 10000))\<rparr>]"

definition likely_cat :: "text_result list" where
  "likely_cat = [\<lparr>tr_word = ''cat'', tr_status = Pass, lcs_similarity = 1,
                  tr_confidence = Some (double_of (905 / 1000))\<rparr>]"

definition silent_cat :: "mfcc_result list" where
  "silent_cat = [\<lparr>mr_word = ''cat'', similarity = Some 0, adjusted_score = Some 0\<rparr>]"

definition timed_cat :: "time_match_record list" where
  "timed_cat = [\<lparr>tm_word = ''cat'', time_match = True, overlap_ratio = 1, ref_start = 0,
                 ref_end = 1 / 2, user_start = Some 0, user_end = Some (1 / 2)\<rparr>]"

section \<open>textgrid\_comparator.py\<close>

subsection \<open>analyze\_pitch\_similarity\<close>

text \<open>
  A point of a pitch track (\<open>hz\<close> is null on an unvoiced frame) and a segment of the
  reference script. \<open>calculate_dtw_pitch_similarity\<close> rests on the fastdtw library and
  enters as the parameter \<open>dtw\<close>; it always returns a number. The pitch tracks are the
  lists \<open>load_pitch_data\<close> returns.
\<close>

record pitch_point =
  pp_time :: real
  hz :: "real option"

record pitch_segment =
  ps_text :: string
  ps_start :: real
  ps_end :: real

record segment_detail =
  sd_text :: string
  sd_start :: real
  sd_end :: real
  sd_similarity :: "real option"

record pitch_report =
  pitch_similarity :: real
  segment_details :: "segment_detail list"

fun extract_pitch_segment_safe :: "pitch_point list \<Rightarrow> real \<Rightarrow> real \<Rightarrow> real list" where
  "extract_pitch_segment_safe [] s e = []"
| "extract_pitch_segment_safe (pt # pitch_data) s e =
     (case hz pt of
        Some h \<Rightarrow>
          if s \<le> pp_time pt \<and> pp_time pt \<le> e \<and> h > 0
          then h # extract_pitch_segment_safe pitch_data s e
          else extract_pitch_segment_safe pitch_data s e
      | None \<Rightarrow> extract_pitch_segment_safe pitch_data s e)"

text \<open>The similarity of one segment: computed only when both sides have more than 5 points.\<close>

definition segment_similarity ::
  "(real list \<Rightarrow> real list \<Rightarrow> real) \<Rightarrow> pitch_point list \<Rightarrow> pitch_point list
     \<Rightarrow> pitch_segment \<Rightarrow> real option" where
  "segment_similarity dtw ref_pitch_data user_pitch_data seg =
     (let ref_segment = extract_pitch_segment_safe ref_pitch_data (ps_start seg) (ps_end seg);
          user_segment = extract_pitch_segment_safe user_pitch_data (ps_start seg) (ps_end seg)
      in if length ref_segment > 5 \<and> length user_segment > 5
         then Some (dtw ref_segment user_segment)
         else None)"

text \<open>
  The loop over the segments, with its two accumulators \<open>segment_results\<close> and
  \<open>similarities\<close>.
\<close>

fun pitch_loop ::
  "(real list \<Rightarrow> real list \<Rightarrow> real) \<Rightarrow> pitch_point list \<Rightarrow> pitch_point list
     \<Rightarrow> segment_detail list \<Rightarrow> real list \<Rightarrow> pitch_segment list
     \<Rightarrow> segment_detail list \<times> real list" where
  "pitch_loop dtw rp up segment_results similarities [] = (segment_results, similarities)"
| "pitch_loop dtw rp up segment_results similarities (seg # segments) =
     (let sim = segment_similarity dtw rp up seg;
          detail = \<lparr>sd_text = ps_text seg, sd_start = ps_start seg, sd_end = ps_end seg,
                    sd_similarity = (case sim of Some v \<Rightarrow> Some (py_round v 3)
                                               | None \<Rightarrow> None)\<rparr>
      in pitch_loop dtw rp up (segment_results @ [detail])
           (case sim of Some v \<Rightarrow> similarities @ [v] | None \<Rightarrow> similarities)
           segments)"

definition analyze_pitch_similarity ::
  "(real list \<Rightarrow> real list \<Rightarrow> real) \<Rightarrow> pitch_point list \<Rightarrow> pitch_point list
     \<Rightarrow> pitch_segment list \<Rightarrow> pitch_report" where
  "analyze_pitch_similarity dtw ref_pitch_data user_pitch_data segments =
     (case pitch_loop dtw ref_pitch_data user_pitch_data [] [] segments of
        (segment_results, similarities) \<Rightarrow>
          (let avg_similarity = (if similarities \<noteq> []
                                 then sum_list similarities / real (length similarities)
                                 else 0)
           in \<lparr>pitch_similarity = py_round avg_similarity 3,
                segment_details = segment_results\<rparr>))"

text \<open>The entry of \<open>segment_details\<close> for one segment.\<close>

definition detail_of ::
  "(real list \<Rightarrow> real list \<Rightarrow> real) \<Rightarrow> pitch_point list \<Rightarrow> pitch_point list
     \<Rightarrow> pitch_segment \<Rightarrow> segment_detail" where
  "detail_of dtw rp up seg =
     \<lparr>sd_text = ps_text seg, sd_start = ps_start seg, sd_end = ps_end seg,
      sd_similarity = (case segment_similarity dtw rp up seg of
                         Some v \<Rightarrow> Some (py_round v 3) | None \<Rightarrow> None)\<rparr>"

text \<open>
  A pitch track with six voiced points in [0, 1] (one more is unvoiced, one has hz 0) and
  a single voiced point in [2, 3], and two segments over those windows.
\<close>

definition voiced_track :: "pitch_point list" where
  "voiced_track =
     [\<lparr>pp_time = 0, hz = Some 100\<rparr>, \<lparr>pp_time = 1 / 10, hz = Some 110\<rparr>,
      \<lparr>pp_time = 2 / 10, hz = Some 120\<rparr>, \<lparr>pp_time = 3 / 10, hz = None\<rparr>,
      \<lparr>pp_time = 4 / 10, hz = Some 130\<rparr>, \<lparr>pp_time = 5 / 10, hz = Some 120\<rparr>,
      \<lparr>pp_time = 6 / 10, hz = Some 110\<rparr>, \<lparr>pp_time = 7 / 10, hz = Some 0\<rparr>,
      \<lparr>pp_time = 25 / 10, hz = Some 100\<rparr>]"

definition hello_world :: "pitch_segment list" where
  "hello_world = [\<lparr>ps_text = ''hello'', ps_start = 0, ps_end = 1\<rparr>,
                  \<lparr>ps_text = ''world'', ps_start = 2, ps_end = 3\<rparr>]"

section \<open>Theorems\<close>

subsection \<open>Lists of results\<close>

lemma collect_map_Inr:
  "(\<forall>x \<in> set xs. f x = Inr (g x)) \<Longrightarrow> collect (map f xs) = Inr (map g xs)"
  by (induction xs) simp_all

subsection \<open>normalize\_segments\_to\_zero\<close>

text \<open>
  C9: for every non-empty span sequence, normalize\_segments\_to\_zero subtracts the first
  span's original start\_time from every span's start\_time and end\_time (word and further
  fields unchanged), so the first returned span starts at 0; and normalizing the output
  once more returns the same sequence.
\<close>

theorem normalize_segments_to_zero_shift_idem:
  assumes "segs \<noteq> []"
  shows "length (normalize_segments_to_zero segs) = length segs
       \<and> (\<forall>i < length segs.
            normalize_segments_to_zero segs ! i =
              (segs ! i)\<lparr>start_time := start_time (segs ! i) - start_time (hd segs),
                         end_time := end_time (segs ! i) - start_time (hd segs)\<rparr>)
       \<and> start_time (hd (normalize_segments_to_zero segs)) = 0
       \<and> normalize_segments_to_zero (normalize_segments_to_zero segs)
           = normalize_segments_to_zero segs"
proof -
  from assms obtain s rest where segs: "segs = s # rest" by (cases segs) auto
  have eq: "normalize_segments_to_zero segs =
      map (\<lambda>seg. seg\<lparr>start_time := start_time seg - start_time (hd segs),
                      end_time := end_time seg - start_time (hd segs)\<rparr>) segs"
    unfolding segs by (simp add: normalize_segments_to_zero_def Let_def)
  have idem: "normalize_segments_to_zero (normalize_segments_to_zero segs)
           = normalize_segments_to_zero segs"
    unfolding segs by (simp add: normalize_segments_to_zero_def Let_def)
  have zero: "start_time (hd (normalize_segments_to_zero segs)) = 0"
    unfolding segs by (simp add: normalize_segments_to_zero_def Let_def)
  show ?thesis
    using idem zero by (simp add: eq)
qed

theorem normalize_segments_to_zero_shift_idem_witness:
  "normalize_segments_to_zero
     [\<lparr>word = ''hello'', start_time = 2, end_time = 3\<rparr>,
      \<lparr>word = ''world'', start_time = 4, end_time = 5\<rparr>]
   = [\<lparr>word = ''hello'', start_time = 0, end_time = 1\<rparr>,
      \<lparr>word = ''world'', start_time = 2, end_time = 3\<rparr>]
   \<and> normalize_segments_to_zero
       (normalize_segments_to_zero
         [\<lparr>word = ''hello'', start_time = 2, end_time = 3\<rparr>,
          \<lparr>word = ''world'', start_time = 4, end_time = 5\<rparr>])
     = normalize_segments_to_zero
         [\<lparr>word = ''hello'', start_time = 2, end_time = 3\<rparr>,
          \<lparr>word = ''world'', start_time = 4, end_time = 5\<rparr>]"
  using normalize_segments_to_zero_shift_idem
    [of "[\<lparr>word = ''hello'', start_time = 2, end_time = 3\<rparr>,
          \<lparr>word = ''world'', start_time = 4, end_time = 5\<rparr>]"]
  by (simp add: normalize_segments_to_zero_def)

subsection \<open>frame\_wise\_euclidean\_similarity\<close>

lemma np_mean_nonneg: "(\<forall>x \<in> set xs. 0 \<le> x) \<Longrightarrow> 0 \<le> np_mean xs"
  by (simp add: np_mean_def sum_list_nonneg)

lemma np_std_nonneg: "0 \<le> np_std xs"
  by (simp add: np_std_def np_mean_nonneg)

lemma calculate_std_deviation_nonneg: "0 \<le> calculate_std_deviation m"
  by (auto simp: calculate_std_deviation_def intro!: np_mean_nonneg np_std_nonneg)

lemma std_ratio_of_nonneg: "0 \<le> std_ratio_of r u"
  by (simp add: std_ratio_of_def Let_def calculate_std_deviation_nonneg)

lemma ncols_rect: "rect d m \<Longrightarrow> m \<noteq> [] \<Longrightarrow> ncols m = d"
  by (cases m) (simp_all add: rect_def ncols_def)

lemma hstack3_shape:
  assumes "rect 13 m" "map length a = map length m" "map length b = map length m"
  shows "length (hstack3 m a b) = length m \<and> rect 39 (hstack3 m a b)"
proof -
  have la: "length a = length m" and lb: "length b = length m"
    using assms(2,3) by (metis length_map)+
  have ra: "rect 13 a" unfolding rect_def
  proof
    fix row assume "row \<in> set a"
    then have "length row \<in> set (map length m)" using assms(2) by (metis image_eqI set_map)
    then show "length row = 13" using assms(1) by (auto simp: rect_def)
  qed
  have rb: "rect 13 b" unfolding rect_def
  proof
    fix row assume "row \<in> set b"
    then have "length row \<in> set (map length m)" using assms(3) by (metis image_eqI set_map)
    then show "length row = 13" using assms(1) by (auto simp: rect_def)
  qed
  have "length (hstack3 m a b) = length m" by (simp add: hstack3_def la lb)
  moreover have "rect 39 (hstack3 m a b)"
    unfolding rect_def hstack3_def
  proof
    fix row assume "row \<in> set (map (\<lambda>(x, y, z). x @ y @ z) (zip m (zip a b)))"
    then obtain x y z where xyz: "(x, y, z) \<in> set (zip m (zip a b))" "row = x @ y @ z"
      by auto
    from xyz(1) have "x \<in> set m" "(y, z) \<in> set (zip a b)"
      by (auto dest: set_zip_leftD set_zip_rightD)
    then have "x \<in> set m" "y \<in> set a" "z \<in> set b"
      by (auto dest: set_zip_leftD set_zip_rightD)
    then show "length row = 39" using assms(1) ra rb xyz(2) by (simp add: rect_def)
  qed
  ultimately show ?thesis by simp
qed

lemma with_deltas_shape:
  assumes "is_feature_matrix m" "keeps_shape delta m" "5 \<le> length m"
  shows "length (with_deltas delta m) = length m \<and> rect 39 (with_deltas delta m)"
proof -
  have ne: "m \<noteq> []" using assms(3) by auto
  from assms(1) consider "rect 13 m" | "rect 39 m" by (auto simp: is_feature_matrix_def rect_def)
  then show ?thesis
  proof cases
    case 1
    then have nc: "ncols m = 13" using ne by (rule ncols_rect)
    have k: "\<And>order width. map length (delta order width m) = map length m"
      using assms(2) by (simp add: keeps_shape_def)
    show ?thesis
      using assms(3) ne hstack3_shape[OF 1 k k]
      by (simp add: with_deltas_def nc add_delta_features_def Let_def)
  next
    case 2
    then have nc: "ncols m = 39" using ne by (rule ncols_rect)
    show ?thesis using 2 by (simp add: with_deltas_def nc)
  qed
qed

lemma apply_cmvn_shape:
  "m \<noteq> [] \<Longrightarrow> length (apply_cmvn m) = length m \<and> rect (ncols m) (apply_cmvn m)"
  by (auto simp: apply_cmvn_def rect_def)

lemma segment_norm_shape:
  assumes "is_feature_matrix m" "keeps_shape delta m" "5 \<le> length m"
  shows "length (segment_norm delta m) = length m \<and> rect 39 (segment_norm delta m)"
proof -
  from with_deltas_shape[OF assms]
  have l: "length (with_deltas delta m) = length m" and r: "rect 39 (with_deltas delta m)"
    by simp_all
  have ne: "with_deltas delta m \<noteq> []" using l assms(3) by auto
  from ncols_rect[OF r ne] apply_cmvn_shape[OF ne] l
  show ?thesis by (simp add: segment_norm_def)
qed

lemma scale_columns_shape:
  assumes "rect d m" "length w = d"
  shows "\<exists>m'. scale_columns m w = Inr m' \<and> length m' = length m \<and> rect d m'"
proof -
  have "\<forall>row \<in> set m. broadcast_row (*) row w = Inr (map2 (*) row w)"
    using assms by (simp add: broadcast_row_def rect_def)
  then have "scale_columns m w = Inr (map (\<lambda>row. map2 (*) row w) m)"
    unfolding scale_columns_def by (rule collect_map_Inr)
  moreover have "rect d (map (\<lambda>row. map2 (*) row w) m)"
    using assms by (auto simp: rect_def)
  ultimately show ?thesis by simp
qed

lemma pad_reference_mfcc_shape:
  assumes "rect d m" "m \<noteq> []"
  shows "length (pad_reference_mfcc m n) = max (length m) n \<and> rect d (pad_reference_mfcc m n)"
  using assms by (auto simp: pad_reference_mfcc_def rect_def)

lemma subtract_frames_shape:
  assumes "rect d a" "rect d b"
  shows "\<exists>diff. subtract_frames a b = Inr diff \<and> length diff = min (length a) (length b)"
proof -
  have "\<forall>p \<in> set (zip a b). (\<lambda>(r, s). broadcast_row (-) r s) p = Inr ((\<lambda>(r, s). map2 (-) r s) p)"
  proof
    fix p assume p: "p \<in> set (zip a b)"
    obtain r s where rs: "p = (r, s)" by (cases p)
    from p rs have "r \<in> set a" "s \<in> set b"
      by (auto dest: set_zip_leftD set_zip_rightD)
    then have "length r = length s" using assms by (simp add: rect_def)
    then show "(\<lambda>(r, s). broadcast_row (-) r s) p = Inr ((\<lambda>(r, s). map2 (-) r s) p)"
      by (simp add: rs broadcast_row_def)
  qed
  then have "subtract_frames a b = Inr (map (\<lambda>(r, s). map2 (-) r s) (zip a b))"
    unfolding subtract_frames_def by (rule collect_map_Inr)
  then show ?thesis by simp
qed

lemma similarity_value_range:
  fixes md r :: real
  assumes "0 \<le> md" "1 / 2 \<le> r"
  shows "0 < (if r < 1 then 1 / (1 + md) * (1 - (1 - r) * (3 / 10)) else 1 / (1 + md))"
    and "(if r < 1 then 1 / (1 + md) * (1 - (1 - r) * (3 / 10)) else 1 / (1 + md)) \<le> 1"
proof -
  have s: "0 < 1 / (1 + md)" "1 / (1 + md) \<le> 1" using assms(1) by simp_all
  show "0 < (if r < 1 then 1 / (1 + md) * (1 - (1 - r) * (3 / 10)) else 1 / (1 + md))"
  proof (cases "r < 1")
    case True
    then have "0 < 1 - (1 - r) * (3 / 10)" using assms(2) by simp
    with s(1) have "0 < 1 / (1 + md) * (1 - (1 - r) * (3 / 10))" by (rule mult_pos_pos)
    then show ?thesis using True by simp
  next
    case False then show ?thesis using s by simp
  qed
  show "(if r < 1 then 1 / (1 + md) * (1 - (1 - r) * (3 / 10)) else 1 / (1 + md)) \<le> 1"
  proof (cases "r < 1")
    case True
    then have f: "0 \<le> 1 - (1 - r) * (3 / 10)" "1 - (1 - r) * (3 / 10) \<le> 1"
      using assms(2) by simp_all
    have "1 / (1 + md) * (1 - (1 - r) * (3 / 10)) \<le> 1 * 1"
      using s f by (intro mult_mono) simp_all
    then show ?thesis using True by simp
  next
    case False then show ?thesis using s by simp
  qed
qed

lemma weighted_distance_similarity_range:
  assumes fr: "is_feature_matrix ref_mfcc" and fu: "is_feature_matrix user_mfcc"
    and kr: "keeps_shape delta ref_mfcc" and ku: "keeps_shape delta user_mfcc"
    and lr: "5 \<le> length ref_mfcc" and lu: "5 \<le> length user_mfcc"
    and r: "1 / 2 \<le> std_ratio"
  shows "\<exists>v. weighted_distance_similarity delta std_ratio ref_mfcc user_mfcc = Inr v
             \<and> 0 < v \<and> v \<le> 1"
proof -
  let ?rn = "segment_norm delta ref_mfcc" and ?un = "segment_norm delta user_mfcc"
  from segment_norm_shape[OF fr kr lr]
  have rn: "length ?rn = length ref_mfcc" "rect 39 ?rn" by simp_all
  from segment_norm_shape[OF fu ku lu]
  have un: "length ?un = length user_mfcc" "rect 39 ?un" by simp_all
  have rne: "?rn \<noteq> []" using rn(1) lr by auto
  have nc: "ncols ?rn = 39" using rn(2) rne by (rule ncols_rect)
  let ?w = "replicate (39 div 3) (3 / 2 :: real) @ replicate (39 div 3) (8 / 10)
              @ replicate (39 div 3) (3 / 10)"
  have lw: "length ?w = 39" by simp
  from scale_columns_shape[OF rn(2) lw] obtain ref_w where
    rw: "scale_columns ?rn ?w = Inr ref_w" "length ref_w = length ?rn" "rect 39 ref_w" by blast
  from scale_columns_shape[OF un(2) lw] obtain user_w where
    uw: "scale_columns ?un ?w = Inr user_w" "length user_w = length ?un" "rect 39 user_w" by blast
  have rwne: "ref_w \<noteq> []" using rw(2) rn(1) lr by auto
  have uwne: "user_w \<noteq> []" using uw(2) un(1) lu by auto
  obtain ref_p user_p where p:
    "(if length ref_w \<noteq> length user_w
      then (if length ref_w > length user_w
            then (ref_w, pad_reference_mfcc user_w (length ref_w))
            else (pad_reference_mfcc ref_w (length user_w), user_w))
      else (ref_w, user_w)) = (ref_p, user_p)"
    by (metis surj_pair)
  have shp: "rect 39 ref_p \<and> rect 39 user_p"
    using p rw(3) uw(3) pad_reference_mfcc_shape[OF rw(3) rwne] pad_reference_mfcc_shape[OF uw(3) uwne]
    by (auto split: if_splits)
  from subtract_frames_shape[of 39 ref_p user_p] shp obtain diff where
    d: "subtract_frames ref_p user_p = Inr diff" by blast
  let ?fd = "map (\<lambda>row. sqrt (sum_list (map (\<lambda>x. x\<^sup>2) row))) diff"
  have md: "0 \<le> np_mean ?fd"
    by (rule np_mean_nonneg) (auto intro!: sum_list_nonneg)
  have val: "weighted_distance_similarity delta std_ratio ref_mfcc user_mfcc =
       Inr (if std_ratio < 1 then 1 / (1 + np_mean ?fd) * (1 - (1 - std_ratio) * (3 / 10))
            else 1 / (1 + np_mean ?fd))"
    by (simp only: weighted_distance_similarity_def Let_def nc rw(1) uw(1) sum.case p
          prod.case d)
  from similarity_value_range[OF md r] val show ?thesis by simp
qed

lemma frame_wise_short:
  "length ref_mfcc < 5 \<or> length user_mfcc < 5
     \<Longrightarrow> frame_wise_euclidean_similarity delta ref_mfcc user_mfcc = 0"
  by (auto simp: frame_wise_euclidean_similarity_def)

lemma frame_wise_omission:
  assumes "5 \<le> length ref_mfcc" "5 \<le> length user_mfcc"
    and "std_ratio_of ref_mfcc user_mfcc < 1 / 2"
  shows "frame_wise_euclidean_similarity delta ref_mfcc user_mfcc
           = (5 / 100) * (1 - (1 - std_ratio_of ref_mfcc user_mfcc / (1 / 2)))"
proof -
  have "ref_mfcc \<noteq> []" "user_mfcc \<noteq> []" using assms(1,2) by auto
  then show ?thesis
    using assms by (simp add: frame_wise_euclidean_similarity_def Let_def)
qed

lemma flat_energy_col0: "column flat_energy 0 = [1, 1, 1, 1, 1, 1]"
  by (simp add: flat_energy_def column_def)

lemma flat_energy_col1: "column flat_energy 1 = [1, - 1, 1, - 1, 1, - 1]"
  by (simp add: flat_energy_def column_def)

lemma flat_energy_colj: "2 \<le> j \<Longrightarrow> j < 39 \<Longrightarrow> column flat_energy j = [0, 0, 0, 0, 0, 0]"
  by (simp add: flat_energy_def column_def nth_append nth_Cons')

lemma std_c0: "np_std [1, 1, 1, 1, 1, 1] = 0"
  by (simp add: np_std_def np_mean_def)

lemma std_c1: "np_std [1, - 1, 1, - 1, 1, - 1] = 1"
  by (simp add: np_std_def np_mean_def)

lemma std_cj: "np_std [0, 0, 0, 0, 0, 0] = 0"
  by (simp add: np_std_def np_mean_def)

lemma upt13: "[0 ..< 13] = [0, 1, 2, 3, 4, 5, 6, 7, 8, 9, 10, 11, 12 :: nat]"
  by code_simp

lemma flat_energy_ncols: "ncols flat_energy = 39"
  by (simp add: flat_energy_def ncols_def)

lemma flat_energy_stds:
  "map (\<lambda>j. np_std (column flat_energy j)) [0 ..< 13] = [0, 1, 0, 0, 0, 0, 0, 0, 0, 0, 0, 0, 0]"
proof -
  have c1: "column flat_energy (Suc 0) = [1, - 1, 1, - 1, 1, - 1]"
    using flat_energy_col1 by simp
  show ?thesis
    by (simp add: upt13 flat_energy_col0 c1 flat_energy_colj std_c0 std_c1 std_cj)
qed

lemma flat_energy_std: "calculate_std_deviation flat_energy = 1 / 13"
proof -
  have "length flat_energy = 6" by (simp add: flat_energy_def)
  then show ?thesis
    by (simp add: calculate_std_deviation_def flat_energy_ncols flat_energy_stds np_mean_def)
qed

lemma flat_energy_ratio: "std_ratio_of flat_energy flat_energy = 1"
  by (simp add: std_ratio_of_def flat_energy_std)

lemma pct_flat:
  "np_percentile [1, 1, 1, 1, 1, 1] 5 = 1" "np_percentile [1, 1, 1, 1, 1, 1] 95 = 1"
  by (simp_all add: np_percentile_def Let_def)

lemma flat_energy_feature: "is_feature_matrix flat_energy"
  by (simp add: is_feature_matrix_def flat_energy_def)

lemma identity_keeps_shape: "keeps_shape (\<lambda>order width m. m) m"
  by (simp add: keeps_shape_def)

text \<open>
  C2: for feature matrices (13 or 39 coefficients per frame; the library's delta keeping
  the shape), frame\_wise\_euclidean\_similarity returns exactly 0 when either input has
  fewer than 5 frames (0 frames included); when both have at least 5 frames and the
  deviation ratio is below 0.5 it returns 0.05 * (1 - (1 - ratio / 0.5)), a value in
  [0, 0.05]; otherwise it returns a value in (0, 1].
\<close>

theorem frame_wise_euclidean_similarity_ranges:
  assumes "is_feature_matrix ref_mfcc" and "is_feature_matrix user_mfcc"
    and "keeps_shape delta ref_mfcc" and "keeps_shape delta user_mfcc"
  shows "(length ref_mfcc < 5 \<or> length user_mfcc < 5
            \<longrightarrow> frame_wise_euclidean_similarity delta ref_mfcc user_mfcc = 0)
       \<and> (5 \<le> length ref_mfcc \<and> 5 \<le> length user_mfcc
            \<and> std_ratio_of ref_mfcc user_mfcc < 1 / 2
            \<longrightarrow> frame_wise_euclidean_similarity delta ref_mfcc user_mfcc
                  = (5 / 100) * (1 - (1 - std_ratio_of ref_mfcc user_mfcc / (1 / 2)))
              \<and> 0 \<le> frame_wise_euclidean_similarity delta ref_mfcc user_mfcc
              \<and> frame_wise_euclidean_similarity delta ref_mfcc user_mfcc \<le> 5 / 100)
       \<and> (5 \<le> length ref_mfcc \<and> 5 \<le> length user_mfcc
            \<and> \<not> std_ratio_of ref_mfcc user_mfcc < 1 / 2
            \<longrightarrow> 0 < frame_wise_euclidean_similarity delta ref_mfcc user_mfcc
              \<and> frame_wise_euclidean_similarity delta ref_mfcc user_mfcc \<le> 1)"
proof (intro conjI impI)
  assume "length ref_mfcc < 5 \<or> length user_mfcc < 5"
  then show "frame_wise_euclidean_similarity delta ref_mfcc user_mfcc = 0"
    by (rule frame_wise_short)
next
  assume a: "5 \<le> length ref_mfcc \<and> 5 \<le> length user_mfcc
            \<and> std_ratio_of ref_mfcc user_mfcc < 1 / 2"
  then have v: "frame_wise_euclidean_similarity delta ref_mfcc user_mfcc
           = (5 / 100) * (1 - (1 - std_ratio_of ref_mfcc user_mfcc / (1 / 2)))"
    by (simp add: frame_wise_omission)
  show "frame_wise_euclidean_similarity delta ref_mfcc user_mfcc
           = (5 / 100) * (1 - (1 - std_ratio_of ref_mfcc user_mfcc / (1 / 2)))"
    by (rule v)
  show "0 \<le> frame_wise_euclidean_similarity delta ref_mfcc user_mfcc"
    unfolding v using std_ratio_of_nonneg[of ref_mfcc user_mfcc] by simp
  show "frame_wise_euclidean_similarity delta ref_mfcc user_mfcc \<le> 5 / 100"
    unfolding v using a by simp
next
  assume a: "5 \<le> length ref_mfcc \<and> 5 \<le> length user_mfcc
            \<and> \<not> std_ratio_of ref_mfcc user_mfcc < 1 / 2"
  then have r: "1 / 2 \<le> std_ratio_of ref_mfcc user_mfcc" by simp
  from weighted_distance_similarity_range[OF assms _ _ r] a obtain v where
    v: "weighted_distance_similarity delta (std_ratio_of ref_mfcc user_mfcc) ref_mfcc user_mfcc = Inr v"
       "0 < v" "v \<le> 1" by blast
  have "ref_mfcc \<noteq> []" "user_mfcc \<noteq> []" using a by auto
  then have "frame_wise_euclidean_similarity delta ref_mfcc user_mfcc = v"
    using a v(1) by (simp add: frame_wise_euclidean_similarity_def Let_def)
  then show "0 < frame_wise_euclidean_similarity delta ref_mfcc user_mfcc"
    and "frame_wise_euclidean_similarity delta ref_mfcc user_mfcc \<le> 1"
    using v by simp_all
qed

theorem frame_wise_euclidean_similarity_ranges_witness:
  "is_feature_matrix flat_energy \<and> keeps_shape (\<lambda>order width m. m) flat_energy
   \<and> 5 \<le> length flat_energy \<and> \<not> std_ratio_of flat_energy flat_energy < 1 / 2
   \<and> 0 < frame_wise_euclidean_similarity (\<lambda>order width m. m) flat_energy flat_energy
   \<and> frame_wise_euclidean_similarity (\<lambda>order width m. m) flat_energy flat_energy \<le> 1"
proof -
  have l: "5 \<le> length flat_energy" by (simp add: flat_energy_def)
  have r: "\<not> std_ratio_of flat_energy flat_energy < 1 / 2" by (simp add: flat_energy_ratio)
  from frame_wise_euclidean_similarity_ranges
         [OF flat_energy_feature flat_energy_feature identity_keeps_shape identity_keeps_shape]
       l r
  have "0 < frame_wise_euclidean_similarity (\<lambda>order width m. m) flat_energy flat_energy
      \<and> frame_wise_euclidean_similarity (\<lambda>order width m. m) flat_energy flat_energy \<le> 1"
    by blast
  then show ?thesis
    using flat_energy_feature identity_keeps_shape l r by blast
qed

subsection \<open>Normalisation on the main path\<close>

lemma column_apply_cmvn:
  assumes "rect d m" "m \<noteq> []" "j < d"
  shows "column (apply_cmvn m) j =
           map (\<lambda>x. (x - np_mean (column m j)) / (np_std (column m j) + 1 / 10 ^ 9)) (column m j)"
proof -
  have nc: "ncols m = d" using assms(1,2) by (rule ncols_rect)
  show ?thesis using assms(2,3)
    by (simp add: column_def apply_cmvn_def nc)
qed

lemma sum_list_centered:
  fixes xs :: "real list"
  shows "sum_list (map (\<lambda>x. (x - mu) / c) xs) = (sum_list xs - real (length xs) * mu) / c"
  by (induction xs) (simp_all add: add_divide_distrib diff_divide_distrib algebra_simps)

lemma np_mean_centered:
  assumes "xs \<noteq> []"
  shows "np_mean (map (\<lambda>x. (x - np_mean xs) / c) xs) = 0"
proof -
  have "sum_list xs - real (length xs) * np_mean xs = 0"
    using assms by (simp add: np_mean_def)
  then show ?thesis by (simp add: np_mean_def[of "map _ _"] sum_list_centered)
qed

lemma sum_list_scaled_squares:
  fixes xs :: "real list" and f :: "real \<Rightarrow> real" and c :: real
  shows "sum_list (map (\<lambda>x. (f x / c)\<^sup>2) xs) = sum_list (map (\<lambda>x. (f x)\<^sup>2) xs) / c\<^sup>2"
  by (induction xs) (simp_all add: power_divide add_divide_distrib)

lemma np_std_scaled:
  assumes "xs \<noteq> []" "0 < c"
  shows "np_std (map (\<lambda>x. (x - np_mean xs) / c) xs) = np_std xs / c"
proof -
  let ?ys = "map (\<lambda>x. (x - np_mean xs) / c) xs"
  have m0: "np_mean ?ys = 0" using assms(1) by (rule np_mean_centered)
  have "np_mean (map (\<lambda>y. (y - np_mean ?ys)\<^sup>2) ?ys)
        = sum_list (map (\<lambda>x. ((x - np_mean xs) / c)\<^sup>2) xs) / real (length xs)"
    unfolding m0 by (simp add: np_mean_def comp_def)
  also have "\<dots> = np_mean (map (\<lambda>x. (x - np_mean xs)\<^sup>2) xs) / c\<^sup>2"
    by (simp add: sum_list_scaled_squares np_mean_def[of "map _ _"])
  finally have "np_std ?ys = sqrt (np_mean (map (\<lambda>x. (x - np_mean xs)\<^sup>2) xs) / c\<^sup>2)"
    by (simp add: np_std_def[of ?ys])
  also have "\<dots> = np_std xs / c"
    using assms(2) by (simp add: real_sqrt_divide np_std_def[of xs])
  finally show ?thesis .
qed

lemma segment_norm_columns:
  assumes "is_feature_matrix m" and "keeps_shape delta m" and "5 \<le> length m" and "j < 39"
  shows "column (segment_norm delta m) j =
           map (\<lambda>x. (x - np_mean (column (with_deltas delta m) j))
                      / (np_std (column (with_deltas delta m) j) + 1 / 10 ^ 9))
               (column (with_deltas delta m) j)
       \<and> np_mean (column (segment_norm delta m) j) = 0
       \<and> np_std (column (segment_norm delta m) j) =
           np_std (column (with_deltas delta m) j)
             / (np_std (column (with_deltas delta m) j) + 1 / 10 ^ 9)"
proof -
  let ?a = "with_deltas delta m"
  from with_deltas_shape[OF assms(1,2,3)]
  have l: "length ?a = length m" and r: "rect 39 ?a" by simp_all
  have ne: "?a \<noteq> []" using l assms(3) by auto
  have cne: "column ?a j \<noteq> []" using ne by (simp add: column_def)
  have pos: "0 < np_std (column ?a j) + 1 / 10 ^ 9"
    using np_std_nonneg[of "column ?a j"] by simp
  have c: "column (segment_norm delta m) j =
      map (\<lambda>x. (x - np_mean (column ?a j)) / (np_std (column ?a j) + 1 / 10 ^ 9)) (column ?a j)"
    unfolding segment_norm_def using r ne assms(4) by (rule column_apply_cmvn)
  show ?thesis
    unfolding c using np_mean_centered[OF cne] np_std_scaled[OF cne pos] by simp
qed

lemma weighted_distance_as_with:
  "weighted_distance_similarity delta s r u = distance_similarity_with apply_cmvn delta s r u"
  unfolding weighted_distance_similarity_def distance_similarity_with_def segment_norm_def ..

lemma frame_wise_as_compare_with:
  "frame_wise_euclidean_similarity delta r u = compare_segments_with apply_cmvn delta r u"
  unfolding frame_wise_euclidean_similarity_def compare_segments_with_def
    weighted_distance_as_with ..

lemma table_of_rect:
  assumes "rect d m"
  shows "m = table (length m) d (\<lambda>i j. m ! i ! j)"
proof (rule nth_equalityI)
  show "length m = length (table (length m) d (\<lambda>i j. m ! i ! j))" by (simp add: table_def)
next
  fix i assume i: "i < length m"
  then have "length (m ! i) = d" using assms by (simp add: rect_def)
  then have "map (\<lambda>j. m ! i ! j) [0 ..< d] = m ! i" by (metis map_nth)
  then show "m ! i = table (length m) d (\<lambda>i j. m ! i ! j) ! i"
    using i by (simp add: table_def)
qed

lemma map2_upt:
  "length w = d \<Longrightarrow> map2 f (map g [0 ..< d]) w = map (\<lambda>j. f (g j) (w ! j)) [0 ..< d]"
  by (rule nth_equalityI) simp_all

lemma scale_table:
  assumes "length w = d"
  shows "scale_columns (table n d e) w = Inr (table n d (\<lambda>i j. e i j * w ! j))"
proof -
  have "\<forall>row \<in> set (table n d e). broadcast_row (*) row w = Inr (map2 (*) row w)"
    using assms by (auto simp: broadcast_row_def table_def)
  then have "scale_columns (table n d e) w = Inr (map (\<lambda>row. map2 (*) row w) (table n d e))"
    unfolding scale_columns_def by (rule collect_map_Inr)
  also have "map (\<lambda>row. map2 (*) row w) (table n d e) = table n d (\<lambda>i j. e i j * w ! j)"
    using assms by (simp add: table_def map2_upt)
  finally show ?thesis .
qed

lemma table_cong:
  "(\<And>i j. i < n \<Longrightarrow> j < d \<Longrightarrow> f i j = g i j) \<Longrightarrow> table n d f = table n d g"
  by (simp add: table_def)

lemma length_table: "length (table n d f) = n"
  by (simp add: table_def)

lemma pad_table:
  assumes "0 < n"
  shows "pad_reference_mfcc (table n d e) m = table (max n m) d (\<lambda>k. e (min k (n - 1)))"
proof (cases "m \<le> n")
  case True
  have "table n d e = table n d (\<lambda>k. e (min k (n - 1)))"
    by (rule table_cong) (auto simp: min_def)
  then show ?thesis using True by (simp add: pad_reference_mfcc_def length_table max_def)
next
  case False
  then have nm: "n < m" by simp
  have last: "last (table n d e) = map (e (n - 1)) [0 ..< d]"
    using assms by (simp add: table_def last_map last_upt)
  have "table n d e @ replicate (m - n) (map (e (n - 1)) [0 ..< d])
          = table m d (\<lambda>k. e (min k (n - 1)))"
  proof (rule nth_equalityI)
    show "length (table n d e @ replicate (m - n) (map (e (n - 1)) [0 ..< d]))
            = length (table m d (\<lambda>k. e (min k (n - 1))))"
      using nm by (simp add: length_table)
  next
    fix k assume "k < length (table n d e @ replicate (m - n) (map (e (n - 1)) [0 ..< d]))"
    then have k: "k < m" using nm by (simp add: length_table)
    show "(table n d e @ replicate (m - n) (map (e (n - 1)) [0 ..< d])) ! k
            = table m d (\<lambda>k. e (min k (n - 1))) ! k"
    proof (cases "k < n")
      case True
      then show ?thesis using k by (simp add: nth_append length_table table_def min_def)
    next
      case False
      then show ?thesis using k nm assms
        by (auto simp: nth_append length_table table_def min_def)
    qed
  qed
  then show ?thesis using nm by (simp add: pad_reference_mfcc_def length_table last max_def)
qed

lemma subtract_table:
  "subtract_frames (table n d p) (table n d q) = Inr (table n d (\<lambda>k j. p k j - q k j))"
proof -
  have z: "zip (table n d p) (table n d q)
             = map (\<lambda>k. (map (p k) [0 ..< d], map (q k) [0 ..< d])) [0 ..< n]"
    by (simp add: table_def zip_map_map zip_same_conv_map)
  have "\<forall>pr \<in> set (zip (table n d p) (table n d q)).
          (\<lambda>(r, s). broadcast_row (-) r s) pr = Inr ((\<lambda>(r, s). map2 (-) r s) pr)"
    unfolding z by (auto simp: broadcast_row_def)
  then have "subtract_frames (table n d p) (table n d q)
      = Inr (map (\<lambda>(r, s). map2 (-) r s) (zip (table n d p) (table n d q)))"
    unfolding subtract_frames_def by (rule collect_map_Inr)
  also have "map (\<lambda>(r, s). map2 (-) r s) (zip (table n d p) (table n d q))
      = table n d (\<lambda>k j. p k j - q k j)"
    unfolding z by (simp add: table_def map2_upt)
  finally show ?thesis .
qed

lemma distances_table:
  "map (\<lambda>row. sqrt (sum_list (map (\<lambda>x. x\<^sup>2) row))) (table n d f)
     = map (\<lambda>k. sqrt (\<Sum>j\<leftarrow>[0 ..< d]. (f k j)\<^sup>2)) [0 ..< n]"
  by (simp add: table_def comp_def)

lemma pad_pair:
  "(if length a \<noteq> length b
    then (if length a > length b
          then (a, pad_reference_mfcc b (length a))
          else (pad_reference_mfcc a (length b), b))
    else (a, b))
   = (pad_reference_mfcc a (length b), pad_reference_mfcc b (length a))"
  by (simp add: pad_reference_mfcc_def)

lemma distance_similarity_with_closed:
  assumes na: "scheme (with_deltas delta ref_mfcc) = na"
    and nb: "scheme (with_deltas delta user_mfcc) = nb"
    and ra: "rect 39 na" and rb: "rect 39 nb"
    and la: "0 < length na" and lb: "0 < length nb"
  shows "distance_similarity_with scheme delta r ref_mfcc user_mfcc =
     Inr (if r < 1
          then 1 / (1 + np_mean (map (\<lambda>k. sqrt (\<Sum>j\<leftarrow>[0 ..< 39].
                       (na ! min k (length na - 1) ! j * block_weights ! j
                        - nb ! min k (length nb - 1) ! j * block_weights ! j)\<^sup>2))
                     [0 ..< max (length na) (length nb)]))
               * (1 - (1 - r) * (3 / 10))
          else 1 / (1 + np_mean (map (\<lambda>k. sqrt (\<Sum>j\<leftarrow>[0 ..< 39].
                       (na ! min k (length na - 1) ! j * block_weights ! j
                        - nb ! min k (length nb - 1) ! j * block_weights ! j)\<^sup>2))
                     [0 ..< max (length na) (length nb)])))"
proof -
  let ?w = "replicate (39 div 3) (3 / 2 :: real) @ replicate (39 div 3) (8 / 10)
              @ replicate (39 div 3) (3 / 10)"
  have w: "?w = block_weights" by (simp add: block_weights_def)
  have lw: "length block_weights = 39" by (simp add: block_weights_def)
  have nea: "na \<noteq> []" using la by auto
  have nc: "ncols na = 39" using ra nea by (rule ncols_rect)
  let ?ta = "table (length na) 39 (\<lambda>i j. na ! i ! j)"
  let ?tb = "table (length nb) 39 (\<lambda>i j. nb ! i ! j)"
  let ?rw = "table (length na) 39 (\<lambda>i j. na ! i ! j * block_weights ! j)"
  let ?uw = "table (length nb) 39 (\<lambda>i j. nb ! i ! j * block_weights ! j)"
  have ta: "na = ?ta" using ra by (rule table_of_rect)
  have tb: "nb = ?tb" using rb by (rule table_of_rect)
  have sa: "scale_columns na block_weights = Inr ?rw"
    by (subst ta) (rule scale_table[OF lw])
  have sb: "scale_columns nb block_weights = Inr ?uw"
    by (subst tb) (rule scale_table[OF lw])
  let ?n = "max (length na) (length nb)"
  let ?rp = "table ?n 39 (\<lambda>k j. na ! min k (length na - 1) ! j * block_weights ! j)"
  let ?up = "table ?n 39 (\<lambda>k j. nb ! min k (length nb - 1) ! j * block_weights ! j)"
  have pa: "pad_reference_mfcc ?rw (length ?uw) = ?rp"
    using pad_table[OF la, of 39 "\<lambda>i j. na ! i ! j * block_weights ! j" "length nb"]
    by (simp add: length_table)
  have pb: "pad_reference_mfcc ?uw (length ?rw) = ?up"
    using pad_table[OF lb, of 39 "\<lambda>i j. nb ! i ! j * block_weights ! j" "length na"]
    by (simp add: length_table max.commute)
  have d: "subtract_frames ?rp ?up =
      Inr (table ?n 39 (\<lambda>k j. na ! min k (length na - 1) ! j * block_weights ! j
                               - nb ! min k (length nb - 1) ! j * block_weights ! j))"
    by (rule subtract_table)
  show ?thesis
    by (simp only: distance_similarity_with_def Let_def na nb nc w sa sb sum.case pad_pair
          pa pb prod.case d distances_table)
qed

lemma apply_cmvn_entry:
  assumes "rect d a" "i < length a" "j < d"
  shows "apply_cmvn a ! i ! j = cmvn_entry a i j"
proof -
  have ne: "a \<noteq> []" using assms(2) by auto
  have nc: "ncols a = d" using assms(1) ne by (rule ncols_rect)
  show ?thesis using assms(2,3) ne by (simp add: apply_cmvn_def nc cmvn_entry_def)
qed

lemma clipping_shape:
  assumes "rect d m" "0 < d" "m \<noteq> []"
  shows "length (cmvn_with_c0_clipping m) = length m \<and> rect d (cmvn_with_c0_clipping m)"
proof -
  have nc: "ncols (map tl m) = d - 1"
    using assms by (cases m) (simp_all add: ncols_def rect_def)
  have len: "length (cmvn_with_c0_clipping m) = length m"
    using assms(3) by (simp add: cmvn_with_c0_clipping_def Let_def column_def)
  have "rect d (cmvn_with_c0_clipping m)"
    unfolding rect_def
  proof
    fix row assume "row \<in> set (cmvn_with_c0_clipping m)"
    then obtain e r where "row = e # r" "length r = d - 1"
      using assms(3)
      by (auto simp: cmvn_with_c0_clipping_def Let_def nc split: if_splits
               dest!: set_zip_rightD)
    then show "length row = d" using assms(2) by simp
  qed
  with len show ?thesis by simp
qed

lemma clipping_entry_rest:
  assumes "rect d m" "i < length m" "1 \<le> j" "j < d"
  shows "cmvn_with_c0_clipping m ! i ! j = cmvn_entry m i j"
proof -
  have ne: "m \<noteq> []" using assms(2) by auto
  have nc: "ncols (map tl m) = d - 1"
    using assms(1,4) ne by (cases m) (simp_all add: ncols_def rect_def)
  have rows: "\<And>row. row \<in> set m \<Longrightarrow> tl row ! (j - Suc 0) = row ! j"
  proof -
    fix row assume "row \<in> set m"
    then have "length row = d" using assms(1) by (simp add: rect_def)
    then show "tl row ! (j - Suc 0) = row ! j"
      using assms(3,4) by (cases row) (simp_all add: nth_Cons')
  qed
  have col: "column (map tl m) (j - Suc 0) = column m j"
    using rows by (simp add: column_def)
  have ri: "tl (m ! i) ! (j - Suc 0) = m ! i ! j"
    using rows assms(2) by simp
  have j1: "j - Suc 0 < d - Suc 0" using assms(3,4) by simp
  show ?thesis
    using assms(2,3) ne j1
    by (simp add: cmvn_with_c0_clipping_def Let_def nc column_def[of m 0] nth_Cons'
          cmvn_entry_def col ri)
qed

lemma clipping_entry_energy:
  assumes "i < length m"
  shows "cmvn_with_c0_clipping m ! i ! 0 =
     (if np_percentile (column m 0) 95 - np_percentile (column m 0) 5 < 1 / 10 ^ 6
      then 1 / 2
      else (np_clip (m ! i ! 0) (np_percentile (column m 0) 5) (np_percentile (column m 0) 95)
              - np_percentile (column m 0) 5)
           / (np_percentile (column m 0) 95 - np_percentile (column m 0) 5))"
proof -
  have ne: "m \<noteq> []" using assms by auto
  show ?thesis
    using assms ne
    by (simp add: cmvn_with_c0_clipping_def Let_def column_def)
qed

lemma sum_list_all_zero:
  fixes g :: "nat \<Rightarrow> real"
  shows "(\<And>j. j \<in> set js \<Longrightarrow> g j = 0) \<Longrightarrow> sum_list (map g js) = 0"
  by (induction js) simp_all

lemma np_mean_constant:
  assumes "0 < n" and "\<And>k. k < n \<Longrightarrow> f k = c"
  shows "np_mean (map f [0 ..< n]) = c"
proof -
  have "map f [0 ..< n] = map (\<lambda>k. c) [0 ..< n]" using assms(2) by simp
  then have "sum_list (map f [0 ..< n]) = sum_list (map (\<lambda>k. c) [0 ..< n])"
    by (rule arg_cong)
  also have "\<dots> = real n * c" by (simp add: sum_list_triv)
  finally have "sum_list (map f [0 ..< n]) = real n * c" .
  then show ?thesis using assms(1) by (simp add: np_mean_def)
qed

lemma energy_only_distance:
  assumes na: "scheme (with_deltas delta ref_mfcc) = na"
    and nb: "scheme (with_deltas delta user_mfcc) = nb"
    and ra: "rect 39 na" and rb: "rect 39 nb"
    and la: "length na = n" and lb: "length nb = n" and n: "0 < n"
    and same: "\<And>k j. k < n \<Longrightarrow> 1 \<le> j \<Longrightarrow> j < 39 \<Longrightarrow> na ! k ! j = nb ! k ! j"
    and dist: "\<And>k. k < n \<Longrightarrow> \<bar>na ! k ! 0 - nb ! k ! 0\<bar> = v"
  shows "distance_similarity_with scheme delta r ref_mfcc user_mfcc =
     Inr (if r < 1 then 1 / (1 + v * (3 / 2)) * (1 - (1 - r) * (3 / 10))
          else 1 / (1 + v * (3 / 2)))"
proof -
  have la0: "0 < length na" and lb0: "0 < length nb" using la lb n by simp_all
  have w0: "block_weights ! 0 = 3 / 2" by (simp add: block_weights_def nth_append)
  have frame: "sqrt (\<Sum>j\<leftarrow>[0 ..< 39].
                       (na ! min k (length na - 1) ! j * block_weights ! j
                        - nb ! min k (length nb - 1) ! j * block_weights ! j)\<^sup>2) = v * (3 / 2)"
    if k: "k < n" for k
  proof -
    have mk: "min k (n - Suc 0) = k" using k by simp
    have split: "[0 ..< 39] = 0 # [Suc 0 ..< 39]" by (simp add: upt_conv_Cons)
    have tail: "(\<Sum>j\<leftarrow>[Suc 0 ..< 39]. (na ! k ! j * block_weights ! j
                                     - nb ! k ! j * block_weights ! j)\<^sup>2) = 0"
      by (rule sum_list_all_zero) (simp add: same[OF k])
    have head: "(na ! k ! 0 * block_weights ! 0 - nb ! k ! 0 * block_weights ! 0)\<^sup>2
          = ((na ! k ! 0 - nb ! k ! 0) * (3 / 2))\<^sup>2"
      unfolding w0 by (simp add: diff_divide_distrib left_diff_distrib)
    have "(\<Sum>j\<leftarrow>[0 ..< 39]. (na ! k ! j * block_weights ! j
                                  - nb ! k ! j * block_weights ! j)\<^sup>2)
          = (na ! k ! 0 * block_weights ! 0 - nb ! k ! 0 * block_weights ! 0)\<^sup>2
            + (\<Sum>j\<leftarrow>[Suc 0 ..< 39]. (na ! k ! j * block_weights ! j
                                     - nb ! k ! j * block_weights ! j)\<^sup>2)"
      unfolding split by (simp only: list.map sum_list.Cons)
    then have "(\<Sum>j\<leftarrow>[0 ..< 39]. (na ! k ! j * block_weights ! j
                                  - nb ! k ! j * block_weights ! j)\<^sup>2)
          = ((na ! k ! 0 - nb ! k ! 0) * (3 / 2))\<^sup>2"
      unfolding tail head by simp
    then have "sqrt (\<Sum>j\<leftarrow>[0 ..< 39]. (na ! k ! j * block_weights ! j
                                  - nb ! k ! j * block_weights ! j)\<^sup>2)
          = \<bar>(na ! k ! 0 - nb ! k ! 0) * (3 / 2)\<bar>"
      by simp
    also have "\<dots> = v * (3 / 2)" using dist[OF k] by (simp add: abs_mult)
    finally show ?thesis by (simp add: la lb mk)
  qed
  have mean: "np_mean (map (\<lambda>k. sqrt (\<Sum>j\<leftarrow>[0 ..< 39].
                       (na ! min k (length na - 1) ! j * block_weights ! j
                        - nb ! min k (length nb - 1) ! j * block_weights ! j)\<^sup>2))
                     [0 ..< max (length na) (length nb)]) = v * (3 / 2)"
    unfolding la lb max.idem
    using n frame[unfolded la lb] by (rule np_mean_constant)
  show ?thesis
    unfolding distance_similarity_with_closed[OF na nb ra rb la0 lb0] mean ..
qed

lemma flat_energy_length: "length flat_energy = 6"
  by (simp add: flat_energy_def)

lemma lively_energy_length: "length lively_energy = 6"
  by (simp add: lively_energy_def)

lemma flat_energy_rect: "rect 39 flat_energy"
  by (simp add: rect_def flat_energy_def)

lemma lively_energy_rect: "rect 39 lively_energy"
  by (simp add: rect_def lively_energy_def)

lemma lively_energy_feature: "is_feature_matrix lively_energy"
  by (simp add: is_feature_matrix_def lively_energy_def)

lemma lively_energy_ncols: "ncols lively_energy = 39"
  by (simp add: lively_energy_def ncols_def)

lemma lively_energy_col0: "column lively_energy 0 = [1, - 1, 1, - 1, 1, - 1]"
  by (simp add: lively_energy_def column_def)

lemma lively_energy_col1: "column lively_energy (Suc 0) = [1, - 1, 1, - 1, 1, - 1]"
  by (simp add: lively_energy_def column_def)

lemma lively_energy_colj:
  "2 \<le> j \<Longrightarrow> j < 39 \<Longrightarrow> column lively_energy j = [0, 0, 0, 0, 0, 0]"
  by (simp add: lively_energy_def column_def nth_append nth_Cons')

lemma lively_energy_std: "calculate_std_deviation lively_energy = 2 / 13"
proof -
  have "map (\<lambda>j. np_std (column lively_energy j)) [0 ..< 13]
          = [1, 1, 0, 0, 0, 0, 0, 0, 0, 0, 0, 0, 0]"
    by (simp add: upt13 lively_energy_col0 lively_energy_col1 lively_energy_colj
          std_c1 std_cj)
  then show ?thesis
    by (simp add: calculate_std_deviation_def lively_energy_ncols lively_energy_length
          np_mean_def)
qed

lemma flat_lively_ratio: "std_ratio_of flat_energy lively_energy = 2"
  by (simp add: std_ratio_of_def flat_energy_std lively_energy_std)

lemma below_six: "k < 6 \<Longrightarrow> k = 0 \<or> k = 1 \<or> k = 2 \<or> k = 3 \<or> k = 4 \<or> k = (5::nat)"
  by arith

lemma flat_energy_entry0: "k < 6 \<Longrightarrow> flat_energy ! k ! 0 = 1"
  by (auto simp: flat_energy_def dest!: below_six)

lemma lively_energy_entry0:
  "k < 6 \<Longrightarrow> lively_energy ! k ! 0 = 1 \<or> lively_energy ! k ! 0 = - 1"
  by (auto simp: lively_energy_def dest!: below_six)

lemma same_shape_columns:
  assumes "1 \<le> j" "j < 39"
  shows "column flat_energy j = column lively_energy j"
  using assms by (simp add: column_def flat_energy_def lively_energy_def nth_Cons')

lemma same_shape_entries:
  assumes "k < 6" "1 \<le> j" "j < 39"
  shows "flat_energy ! k ! j = lively_energy ! k ! j"
  using assms(2,3) below_six[OF assms(1)]
  by (auto simp: flat_energy_def lively_energy_def nth_Cons')

lemma same_cmvn_entries:
  assumes "k < 6" "1 \<le> j" "j < 39"
  shows "cmvn_entry flat_energy k j = cmvn_entry lively_energy k j"
  unfolding cmvn_entry_def same_shape_columns[OF assms(2,3)] same_shape_entries[OF assms] ..

lemma mean_c1: "np_mean [1, - 1, 1, - 1, 1, - 1] = 0" and mean_c0: "np_mean [1, 1, 1, 1, 1, 1] = 1"
  by (simp_all add: np_mean_def)

lemma flat_cmvn_energy: "k < 6 \<Longrightarrow> cmvn_entry flat_energy k 0 = 0"
  by (simp add: cmvn_entry_def flat_energy_col0 mean_c0 flat_energy_entry0)

lemma lively_cmvn_energy:
  "k < 6 \<Longrightarrow> \<bar>cmvn_entry lively_energy k 0\<bar> = 1 / (1 + 1 / 10 ^ 9)"
  using lively_energy_entry0[of k]
  by (auto simp: cmvn_entry_def lively_energy_col0 mean_c1 std_c1)

lemma identity_with_deltas_flat: "with_deltas (\<lambda>order width m. m) flat_energy = flat_energy"
  by (simp add: with_deltas_def flat_energy_ncols)

lemma identity_with_deltas_lively:
  "with_deltas (\<lambda>order width m. m) lively_energy = lively_energy"
  by (simp add: with_deltas_def lively_energy_ncols)

lemma plain_flat_lively:
  "distance_similarity_with apply_cmvn (\<lambda>order width m. m) r flat_energy lively_energy =
     Inr (if r < 1 then 1 / (1 + 1 / (1 + 1 / 10 ^ 9) * (3 / 2)) * (1 - (1 - r) * (3 / 10))
          else 1 / (1 + 1 / (1 + 1 / 10 ^ 9) * (3 / 2)))"
proof (rule energy_only_distance[where na = "apply_cmvn flat_energy"
          and nb = "apply_cmvn lively_energy" and n = 6])
  show "apply_cmvn (with_deltas (\<lambda>order width m. m) flat_energy) = apply_cmvn flat_energy"
    by (simp add: identity_with_deltas_flat)
  show "apply_cmvn (with_deltas (\<lambda>order width m. m) lively_energy) = apply_cmvn lively_energy"
    by (simp add: identity_with_deltas_lively)
  have nf: "flat_energy \<noteq> []" and nl: "lively_energy \<noteq> []"
    using flat_energy_length lively_energy_length by auto
  show "rect 39 (apply_cmvn flat_energy)"
    using apply_cmvn_shape[OF nf] by (simp add: flat_energy_ncols)
  show "rect 39 (apply_cmvn lively_energy)"
    using apply_cmvn_shape[OF nl] by (simp add: lively_energy_ncols)
  show "length (apply_cmvn flat_energy) = 6"
    using apply_cmvn_shape[OF nf] by (simp add: flat_energy_length)
  show "length (apply_cmvn lively_energy) = 6"
    using apply_cmvn_shape[OF nl] by (simp add: lively_energy_length)
  show "(0::nat) < 6" by simp
next
  fix k j :: nat assume k: "k < 6" and j: "1 \<le> j" "j < 39"
  have "apply_cmvn flat_energy ! k ! j = cmvn_entry flat_energy k j"
    using flat_energy_rect k j(2) by (intro apply_cmvn_entry) (simp_all add: flat_energy_length)
  moreover have "apply_cmvn lively_energy ! k ! j = cmvn_entry lively_energy k j"
    using lively_energy_rect k j(2)
    by (intro apply_cmvn_entry) (simp_all add: lively_energy_length)
  ultimately show "apply_cmvn flat_energy ! k ! j = apply_cmvn lively_energy ! k ! j"
    using same_cmvn_entries[OF k j] by simp
next
  fix k :: nat assume k: "k < 6"
  have a: "apply_cmvn flat_energy ! k ! 0 = 0"
    using apply_cmvn_entry[OF flat_energy_rect, of k 0] k
    by (simp add: flat_energy_length flat_cmvn_energy)
  have b: "apply_cmvn lively_energy ! k ! 0 = cmvn_entry lively_energy k 0"
    using apply_cmvn_entry[OF lively_energy_rect, of k 0] k
    by (simp add: lively_energy_length)
  show "\<bar>apply_cmvn flat_energy ! k ! 0 - apply_cmvn lively_energy ! k ! 0\<bar>
          = 1 / (1 + 1 / 10 ^ 9)"
    unfolding a b using lively_cmvn_energy[OF k] by simp
qed

lemma pct_signs:
  "np_percentile [1, - 1, 1, - 1, 1, - 1] 5 = - 1" "np_percentile [1, - 1, 1, - 1, 1, - 1] 95 = 1"
  by (simp_all add: np_percentile_def Let_def)

lemma flat_clip_energy: "k < 6 \<Longrightarrow> cmvn_with_c0_clipping flat_energy ! k ! 0 = 1 / 2"
  using clipping_entry_energy[of k flat_energy]
  by (simp add: flat_energy_length flat_energy_col0 pct_flat)

lemma lively_clip_energy:
  assumes "k < 6"
  shows "cmvn_with_c0_clipping lively_energy ! k ! 0 = 0
       \<or> cmvn_with_c0_clipping lively_energy ! k ! 0 = 1"
  using clipping_entry_energy[of k lively_energy] lively_energy_entry0[OF assms] assms
  by (auto simp: lively_energy_length lively_energy_col0 pct_signs np_clip_def)

lemma clip_flat_lively:
  "distance_similarity_with cmvn_with_c0_clipping (\<lambda>order width m. m) r
       flat_energy lively_energy =
     Inr (if r < 1 then 1 / (1 + 1 / 2 * (3 / 2)) * (1 - (1 - r) * (3 / 10))
          else 1 / (1 + 1 / 2 * (3 / 2)))"
proof (rule energy_only_distance[where na = "cmvn_with_c0_clipping flat_energy"
          and nb = "cmvn_with_c0_clipping lively_energy" and n = 6])
  show "cmvn_with_c0_clipping (with_deltas (\<lambda>order width m. m) flat_energy)
          = cmvn_with_c0_clipping flat_energy"
    by (simp add: identity_with_deltas_flat)
  show "cmvn_with_c0_clipping (with_deltas (\<lambda>order width m. m) lively_energy)
          = cmvn_with_c0_clipping lively_energy"
    by (simp add: identity_with_deltas_lively)
  have nf: "flat_energy \<noteq> []" and nl: "lively_energy \<noteq> []"
    using flat_energy_length lively_energy_length by auto
  have p: "(0::nat) < 39" by simp
  show "rect 39 (cmvn_with_c0_clipping flat_energy)"
    using clipping_shape[OF flat_energy_rect p nf] by simp
  show "rect 39 (cmvn_with_c0_clipping lively_energy)"
    using clipping_shape[OF lively_energy_rect p nl] by simp
  show "length (cmvn_with_c0_clipping flat_energy) = 6"
    using clipping_shape[OF flat_energy_rect p nf] by (simp add: flat_energy_length)
  show "length (cmvn_with_c0_clipping lively_energy) = 6"
    using clipping_shape[OF lively_energy_rect p nl] by (simp add: lively_energy_length)
  show "(0::nat) < 6" by simp
next
  fix k j :: nat assume k: "k < 6" and j: "1 \<le> j" "j < 39"
  have "cmvn_with_c0_clipping flat_energy ! k ! j = cmvn_entry flat_energy k j"
    using flat_energy_rect k j
    by (intro clipping_entry_rest) (simp_all add: flat_energy_length)
  moreover have "cmvn_with_c0_clipping lively_energy ! k ! j = cmvn_entry lively_energy k j"
    using lively_energy_rect k j
    by (intro clipping_entry_rest) (simp_all add: lively_energy_length)
  ultimately show "cmvn_with_c0_clipping flat_energy ! k ! j
                     = cmvn_with_c0_clipping lively_energy ! k ! j"
    using same_cmvn_entries[OF k j] by simp
next
  fix k :: nat assume k: "k < 6"
  show "\<bar>cmvn_with_c0_clipping flat_energy ! k ! 0
           - cmvn_with_c0_clipping lively_energy ! k ! 0\<bar> = 1 / 2"
    using flat_clip_energy[OF k] lively_clip_energy[OF k] by auto
qed

lemma frame_wise_flat_lively:
  "frame_wise_euclidean_similarity (\<lambda>order width m. m) flat_energy lively_energy
       = 1 / (1 + 1 / (1 + 1 / 10 ^ 9) * (3 / 2))"
proof -
  have ne: "flat_energy \<noteq> []" "lively_energy \<noteq> []"
    using flat_energy_length lively_energy_length by auto
  show ?thesis
    unfolding frame_wise_as_compare_with
    by (simp add: compare_segments_with_def flat_energy_length lively_energy_length
          flat_lively_ratio plain_flat_lively ne)
qed

text \<open>
  C1, counterexample: \<open>flat_energy\<close> against \<open>lively_energy\<close> reaches the main path (six
  frames each, deviation ratio 2). The two segments differ in the energy column only.
  \<open>frame_wise_euclidean_similarity\<close> returns 1 / (1 + 1.5 / (1 + 1e-9)), about 0.4: the
  energy column of the first segment is normalised to 0 and that of the second to
  1 / (1 + 1e-9) or its negative. With the CMVN+clip scheme of the specification the
  energy columns would be 0.5 against 0 or 1, and the comparison would return 4 / 7.
\<close>

theorem main_path_cmvn_clip_counterexample:
  "5 \<le> length flat_energy \<and> 5 \<le> length lively_energy
   \<and> \<not> std_ratio_of flat_energy lively_energy < 1 / 2
   \<and> frame_wise_euclidean_similarity (\<lambda>order width m. m) flat_energy lively_energy
       = 1 / (1 + 1 / (1 + 1 / 10 ^ 9) * (3 / 2))
   \<and> spec_compare_segments (\<lambda>order width m. m) flat_energy lively_energy = 4 / 7
   \<and> frame_wise_euclidean_similarity (\<lambda>order width m. m) flat_energy lively_energy
       \<noteq> spec_compare_segments (\<lambda>order width m. m) flat_energy lively_energy"
proof -
  have ne: "flat_energy \<noteq> []" "lively_energy \<noteq> []"
    using flat_energy_length lively_energy_length by auto
  note code = frame_wise_flat_lively
  have spec: "spec_compare_segments (\<lambda>order width m. m) flat_energy lively_energy = 4 / 7"
    by (simp add: spec_compare_segments_def compare_segments_with_def flat_energy_length
          lively_energy_length flat_lively_ratio clip_flat_lively ne)
  show ?thesis
    unfolding code spec
    by (simp add: flat_energy_length lively_energy_length flat_lively_ratio)
qed

lemma cmvn_entry_column:
  assumes "rect d a" "j < d"
  shows "map (\<lambda>i. cmvn_entry a i j) [0 ..< length a] = column (apply_cmvn a) j"
proof (cases "a = []")
  case True
  then show ?thesis by (simp add: column_def apply_cmvn_def)
next
  case False
  have l: "length (apply_cmvn a) = length a" using apply_cmvn_shape[OF False] by simp
  show ?thesis
  proof (rule nth_equalityI)
    show "length (map (\<lambda>i. cmvn_entry a i j) [0 ..< length a]) = length (column (apply_cmvn a) j)"
      by (simp add: column_def l)
  next
    fix i assume "i < length (map (\<lambda>i. cmvn_entry a i j) [0 ..< length a])"
    then have i: "i < length a" by simp
    show "map (\<lambda>i. cmvn_entry a i j) [0 ..< length a] ! i = column (apply_cmvn a) j ! i"
      using i l apply_cmvn_entry[OF assms(1) i assms(2)] by (simp add: column_def)
  qed
qed

lemma plain_main_path_value:
  assumes fr: "is_feature_matrix ref_mfcc" and fu: "is_feature_matrix user_mfcc"
    and kr: "keeps_shape delta ref_mfcc" and ku: "keeps_shape delta user_mfcc"
    and lr: "5 \<le> length ref_mfcc" and lu: "5 \<le> length user_mfcc"
    and main: "\<not> std_ratio_of ref_mfcc user_mfcc < 1 / 2"
  shows "frame_wise_euclidean_similarity delta ref_mfcc user_mfcc =
     (let a = with_deltas delta ref_mfcc;
          b = with_deltas delta user_mfcc;
          mean_distance =
            np_mean (map (\<lambda>k. sqrt (\<Sum>j\<leftarrow>[0 ..< 39].
                       (cmvn_entry a (min k (length ref_mfcc - 1)) j * block_weights ! j
                        - cmvn_entry b (min k (length user_mfcc - 1)) j * block_weights ! j)\<^sup>2))
                     [0 ..< max (length ref_mfcc) (length user_mfcc)]);
          similarity = 1 / (1 + mean_distance)
      in if std_ratio_of ref_mfcc user_mfcc < 1
         then similarity * (1 - (1 - std_ratio_of ref_mfcc user_mfcc) * (3 / 10))
         else similarity)"
proof -
  let ?a = "with_deltas delta ref_mfcc" and ?b = "with_deltas delta user_mfcc"
  let ?r = "std_ratio_of ref_mfcc user_mfcc"
  from with_deltas_shape[OF fr kr lr]
  have la: "length ?a = length ref_mfcc" and ra: "rect 39 ?a" by simp_all
  from with_deltas_shape[OF fu ku lu]
  have lb: "length ?b = length user_mfcc" and rb: "rect 39 ?b" by simp_all
  have nea: "?a \<noteq> []" and neb: "?b \<noteq> []" using la lb lr lu by auto
  have nca: "ncols ?a = 39" and ncb: "ncols ?b = 39"
    using ra rb nea neb by (simp_all add: ncols_rect)
  have sa: "length (apply_cmvn ?a) = length ref_mfcc" "rect 39 (apply_cmvn ?a)"
    using apply_cmvn_shape[OF nea] la nca by simp_all
  have sb: "length (apply_cmvn ?b) = length user_mfcc" "rect 39 (apply_cmvn ?b)"
    using apply_cmvn_shape[OF neb] lb ncb by simp_all
  have pa: "0 < length (apply_cmvn ?a)" and pb: "0 < length (apply_cmvn ?b)"
    using sa(1) sb(1) lr lu by linarith+
  have ea: "apply_cmvn ?a ! min k (length ref_mfcc - 1) ! j
              = cmvn_entry ?a (min k (length ref_mfcc - 1)) j" if "j \<in> set [0 ..< 39]" for k j
  proof (rule apply_cmvn_entry[OF ra])
    show "min k (length ref_mfcc - 1) < length ?a" using la lr by simp
    show "j < 39" using that by simp
  qed
  have eb: "apply_cmvn ?b ! min k (length user_mfcc - 1) ! j
              = cmvn_entry ?b (min k (length user_mfcc - 1)) j" if "j \<in> set [0 ..< 39]" for k j
  proof (rule apply_cmvn_entry[OF rb])
    show "min k (length user_mfcc - 1) < length ?b" using lb lu by simp
    show "j < 39" using that by simp
  qed
  have frames: "map (\<lambda>k. sqrt (\<Sum>j\<leftarrow>[0 ..< 39].
                       (apply_cmvn ?a ! min k (length ref_mfcc - 1) ! j * block_weights ! j
                        - apply_cmvn ?b ! min k (length user_mfcc - 1) ! j * block_weights ! j)\<^sup>2))
                     [0 ..< max (length ref_mfcc) (length user_mfcc)]
        = map (\<lambda>k. sqrt (\<Sum>j\<leftarrow>[0 ..< 39].
                       (cmvn_entry ?a (min k (length ref_mfcc - 1)) j * block_weights ! j
                        - cmvn_entry ?b (min k (length user_mfcc - 1)) j * block_weights ! j)\<^sup>2))
                     [0 ..< max (length ref_mfcc) (length user_mfcc)]"
    by (intro map_cong refl arg_cong[where f = sqrt] arg_cong[where f = sum_list])
       (simp only: ea eb)
  have ne: "ref_mfcc \<noteq> []" "user_mfcc \<noteq> []" using lr lu by auto
  have "frame_wise_euclidean_similarity delta ref_mfcc user_mfcc =
      (if ?r < 1
       then 1 / (1 + np_mean (map (\<lambda>k. sqrt (\<Sum>j\<leftarrow>[0 ..< 39].
                       (apply_cmvn ?a ! min k (length ref_mfcc - 1) ! j * block_weights ! j
                        - apply_cmvn ?b ! min k (length user_mfcc - 1) ! j * block_weights ! j)\<^sup>2))
                     [0 ..< max (length ref_mfcc) (length user_mfcc)]))
            * (1 - (1 - ?r) * (3 / 10))
       else 1 / (1 + np_mean (map (\<lambda>k. sqrt (\<Sum>j\<leftarrow>[0 ..< 39].
                       (apply_cmvn ?a ! min k (length ref_mfcc - 1) ! j * block_weights ! j
                        - apply_cmvn ?b ! min k (length user_mfcc - 1) ! j * block_weights ! j)\<^sup>2))
                     [0 ..< max (length ref_mfcc) (length user_mfcc)])))"
    unfolding frame_wise_as_compare_with compare_segments_with_def
    using lr lu main ne
    by (simp add: Let_def distance_similarity_with_closed[OF refl refl sa(2) sb(2) pa pb]
          sa(1) sb(1))
  then show ?thesis unfolding frames by (simp add: Let_def)
qed

text \<open>
  C1, as the code has it: on the main path (both segments of at least 5 frames, deviation
  ratio at least 0.5) the similarity returned by \<open>frame_wise_euclidean_similarity\<close> is
  computed from the plain CMVN of the two segments after their delta features: every one
  of the 39 columns, the energy column 0 included, enters as (x - mean) / (std + 1e-9) of
  its own column, multiplied by its weight; the shorter segment is prolonged by its last
  frame, and the value is 1 / (1 + mean frame distance), with the penalty below ratio 1.
  Every normalised column has mean 0 and deviation std / (std + 1e-9).
\<close>

theorem main_path_normalizes_by_plain_cmvn:
  assumes "is_feature_matrix ref_mfcc" and "is_feature_matrix user_mfcc"
    and "keeps_shape delta ref_mfcc" and "keeps_shape delta user_mfcc"
    and "5 \<le> length ref_mfcc" and "5 \<le> length user_mfcc"
    and "\<not> std_ratio_of ref_mfcc user_mfcc < 1 / 2"
  shows "frame_wise_euclidean_similarity delta ref_mfcc user_mfcc =
     (let a = with_deltas delta ref_mfcc;
          b = with_deltas delta user_mfcc;
          mean_distance =
            np_mean (map (\<lambda>k. sqrt (\<Sum>j\<leftarrow>[0 ..< 39].
                       (cmvn_entry a (min k (length ref_mfcc - 1)) j * block_weights ! j
                        - cmvn_entry b (min k (length user_mfcc - 1)) j * block_weights ! j)\<^sup>2))
                     [0 ..< max (length ref_mfcc) (length user_mfcc)]);
          similarity = 1 / (1 + mean_distance)
      in if std_ratio_of ref_mfcc user_mfcc < 1
         then similarity * (1 - (1 - std_ratio_of ref_mfcc user_mfcc) * (3 / 10))
         else similarity)
   \<and> (\<forall>j < 39.
         np_mean (map (\<lambda>i. cmvn_entry (with_deltas delta ref_mfcc) i j) [0 ..< length ref_mfcc]) = 0
       \<and> np_std (map (\<lambda>i. cmvn_entry (with_deltas delta ref_mfcc) i j) [0 ..< length ref_mfcc])
           = np_std (column (with_deltas delta ref_mfcc) j)
               / (np_std (column (with_deltas delta ref_mfcc) j) + 1 / 10 ^ 9)
       \<and> np_mean (map (\<lambda>i. cmvn_entry (with_deltas delta user_mfcc) i j)
                      [0 ..< length user_mfcc]) = 0
       \<and> np_std (map (\<lambda>i. cmvn_entry (with_deltas delta user_mfcc) i j)
                     [0 ..< length user_mfcc])
           = np_std (column (with_deltas delta user_mfcc) j)
               / (np_std (column (with_deltas delta user_mfcc) j) + 1 / 10 ^ 9))"
proof (intro conjI allI impI)
  show "frame_wise_euclidean_similarity delta ref_mfcc user_mfcc =
     (let a = with_deltas delta ref_mfcc;
          b = with_deltas delta user_mfcc;
          mean_distance =
            np_mean (map (\<lambda>k. sqrt (\<Sum>j\<leftarrow>[0 ..< 39].
                       (cmvn_entry a (min k (length ref_mfcc - 1)) j * block_weights ! j
                        - cmvn_entry b (min k (length user_mfcc - 1)) j * block_weights ! j)\<^sup>2))
                     [0 ..< max (length ref_mfcc) (length user_mfcc)]);
          similarity = 1 / (1 + mean_distance)
      in if std_ratio_of ref_mfcc user_mfcc < 1
         then similarity * (1 - (1 - std_ratio_of ref_mfcc user_mfcc) * (3 / 10))
         else similarity)"
    using assms by (rule plain_main_path_value)
next
  fix j :: nat assume j: "j < 39"
  have cols: "map (\<lambda>i. cmvn_entry (with_deltas delta m) i j) [0 ..< length m]
                = column (segment_norm delta m) j"
    if f: "is_feature_matrix m" and k: "keeps_shape delta m" and l: "5 \<le> length m" for m
  proof -
    from with_deltas_shape[OF f k l]
    have la: "length (with_deltas delta m) = length m" and ra: "rect 39 (with_deltas delta m)"
      by simp_all
    show ?thesis
      using cmvn_entry_column[OF ra j] by (simp add: la segment_norm_def)
  qed
  note r = segment_norm_columns[OF assms(1,3,5) j]
  note u = segment_norm_columns[OF assms(2,4,6) j]
  show "np_mean (map (\<lambda>i. cmvn_entry (with_deltas delta ref_mfcc) i j)
                   [0 ..< length ref_mfcc]) = 0"
    unfolding cols[OF assms(1,3,5)] by (rule r[THEN conjunct2, THEN conjunct1])
  show "np_std (map (\<lambda>i. cmvn_entry (with_deltas delta ref_mfcc) i j) [0 ..< length ref_mfcc])
           = np_std (column (with_deltas delta ref_mfcc) j)
               / (np_std (column (with_deltas delta ref_mfcc) j) + 1 / 10 ^ 9)"
    unfolding cols[OF assms(1,3,5)] by (rule r[THEN conjunct2, THEN conjunct2])
  show "np_mean (map (\<lambda>i. cmvn_entry (with_deltas delta user_mfcc) i j)
                      [0 ..< length user_mfcc]) = 0"
    unfolding cols[OF assms(2,4,6)] by (rule u[THEN conjunct2, THEN conjunct1])
  show "np_std (map (\<lambda>i. cmvn_entry (with_deltas delta user_mfcc) i j)
                     [0 ..< length user_mfcc])
           = np_std (column (with_deltas delta user_mfcc) j)
               / (np_std (column (with_deltas delta user_mfcc) j) + 1 / 10 ^ 9)"
    unfolding cols[OF assms(2,4,6)] by (rule u[THEN conjunct2, THEN conjunct2])
qed

theorem main_path_normalizes_by_plain_cmvn_witness:
  "is_feature_matrix flat_energy \<and> is_feature_matrix lively_energy
   \<and> keeps_shape (\<lambda>order width m. m) flat_energy
   \<and> keeps_shape (\<lambda>order width m. m) lively_energy
   \<and> 5 \<le> length flat_energy \<and> 5 \<le> length lively_energy
   \<and> \<not> std_ratio_of flat_energy lively_energy < 1 / 2
   \<and> 1 / (1 + np_mean (map (\<lambda>k. sqrt (\<Sum>j\<leftarrow>[0 ..< 39].
                 (cmvn_entry flat_energy (min k 5) j * block_weights ! j
                  - cmvn_entry lively_energy (min k 5) j * block_weights ! j)\<^sup>2))
               [0 ..< 6]))
       = 1 / (1 + 1 / (1 + 1 / 10 ^ 9) * (3 / 2))
   \<and> np_mean (map (\<lambda>i. cmvn_entry flat_energy i 0) [0 ..< 6]) = 0
   \<and> np_mean (map (\<lambda>i. cmvn_entry lively_energy i 0) [0 ..< 6]) = 0
   \<and> np_std (map (\<lambda>i. cmvn_entry lively_energy i 0) [0 ..< 6]) = 1 / (1 + 1 / 10 ^ 9)"
proof -
  have lf: "5 \<le> length flat_energy" and ll: "5 \<le> length lively_energy"
    by (simp_all add: flat_energy_length lively_energy_length)
  have main: "\<not> std_ratio_of flat_energy lively_energy < 1 / 2"
    by (simp add: flat_lively_ratio)
  note t = main_path_normalizes_by_plain_cmvn
             [OF flat_energy_feature lively_energy_feature identity_keeps_shape
                 identity_keeps_shape lf ll main]
  have z: "(0::nat) < 39" by simp
  from t[THEN conjunct1]
  have v: "1 / (1 + np_mean (map (\<lambda>k. sqrt (\<Sum>j\<leftarrow>[0 ..< 39].
                 (cmvn_entry flat_energy (min k 5) j * block_weights ! j
                  - cmvn_entry lively_energy (min k 5) j * block_weights ! j)\<^sup>2))
               [0 ..< 6]))
       = 1 / (1 + 1 / (1 + 1 / 10 ^ 9) * (3 / 2))"
    unfolding frame_wise_flat_lively
    by (simp add: Let_def identity_with_deltas_flat identity_with_deltas_lively
          flat_energy_length lively_energy_length flat_lively_ratio)
  from t[THEN conjunct2, rule_format, OF z]
  have m0: "np_mean (map (\<lambda>i. cmvn_entry flat_energy i 0) [0 ..< 6]) = 0"
    and m1: "np_mean (map (\<lambda>i. cmvn_entry lively_energy i 0) [0 ..< 6]) = 0"
    and s1: "np_std (map (\<lambda>i. cmvn_entry lively_energy i 0) [0 ..< 6])
           = np_std (column lively_energy 0) / (np_std (column lively_energy 0) + 1 / 10 ^ 9)"
    by (simp_all add: identity_with_deltas_flat identity_with_deltas_lively
          flat_energy_length lively_energy_length)
  have s1': "np_std (map (\<lambda>i. cmvn_entry lively_energy i 0) [0 ..< 6]) = 1 / (1 + 1 / 10 ^ 9)"
    unfolding s1 lively_energy_col0 std_c1 by simp
  show ?thesis
    using flat_energy_feature lively_energy_feature identity_keeps_shape lf ll main v m0 m1 s1'
    by simp
qed

subsection \<open>extract\_mfcc\_segment\<close>

lemma searchsorted_left_full:
  "\<forall>t \<in> set ts. v \<le> t \<Longrightarrow> searchsorted_left ts v = 0"
  by (cases ts) (auto simp: searchsorted_left_def)

lemma searchsorted_right_full:
  "\<forall>t \<in> set ts. t \<le> v \<Longrightarrow> searchsorted_right ts v = length ts"
  unfolding searchsorted_right_def by (induction ts) simp_all

text \<open>
  C6, counterexample: four frames with times 0, 0.01, 0.02, 0.03 spanning [0, 0.03];
  the extraction over the full span returns the empty matrix, not the four frames.
\<close>

theorem extract_full_span_short_counterexample:
  "sorted four_times \<and> length four_times = length four_frames
   \<and> hd four_times = 0 \<and> last four_times = 3 / 100
   \<and> extract_mfcc_segment four_frames four_times 0 (3 / 100) = []
   \<and> extract_mfcc_segment four_frames four_times 0 (3 / 100) \<noteq> four_frames"
  by (simp add: four_times_def four_frames_def extract_mfcc_segment_def
        searchsorted_left_def searchsorted_right_def)

text \<open>
  C6, as the code has it: for a feature matrix M with an ascending, parallel frame-times
  array whose values lie in [0, duration], extract\_mfcc\_segment with start 0 and end
  duration returns every frame of M when M has at least 5 frames, and the empty matrix
  when M has fewer than 5 frames.
\<close>

theorem extract_mfcc_segment_full_span:
  assumes "sorted frame_times" and "length frame_times = length mfcc"
    and "\<forall>t \<in> set frame_times. 0 \<le> t \<and> t \<le> duration"
  shows "(5 \<le> length mfcc \<longrightarrow> extract_mfcc_segment mfcc frame_times 0 duration = mfcc)
       \<and> (length mfcc < 5 \<longrightarrow> extract_mfcc_segment mfcc frame_times 0 duration = [])"
proof -
  have l: "searchsorted_left frame_times 0 = 0"
    using assms(3) by (intro searchsorted_left_full) simp
  have r: "searchsorted_right frame_times duration = length mfcc"
    using assms(2,3) searchsorted_right_full[of frame_times duration] by simp
  show ?thesis
    by (simp add: extract_mfcc_segment_def l r)
qed

theorem extract_mfcc_segment_full_span_witness:
  "sorted [0, 1 / 4, 2 / 4, 3 / 4, 1 :: real]
   \<and> length [0, 1 / 4, 2 / 4, 3 / 4, 1 :: real] = length (map (replicate 13) [1, 2, 3, 4, 5 :: real])
   \<and> 5 \<le> length (map (replicate 13) [1, 2, 3, 4, 5 :: real])
   \<and> extract_mfcc_segment (map (replicate 13) [1, 2, 3, 4, 5]) [0, 1 / 4, 2 / 4, 3 / 4, 1] 0 1
       = map (replicate 13) [1, 2, 3, 4, 5]
   \<and> length four_frames < 5
   \<and> extract_mfcc_segment four_frames four_times 0 (3 / 100) = []"
proof -
  have s: "sorted [0, 1 / 4, 2 / 4, 3 / 4, 1 :: real]" by simp
  have n: "length [0, 1 / 4, 2 / 4, 3 / 4, 1 :: real]
             = length (map (replicate 13) [1, 2, 3, 4, 5 :: real])" by simp
  have b: "\<forall>t \<in> set [0, 1 / 4, 2 / 4, 3 / 4, 1 :: real]. 0 \<le> t \<and> t \<le> 1" by simp
  have five: "5 \<le> length (map (replicate 13) [1, 2, 3, 4, 5 :: real])" by simp
  have s4: "sorted four_times" and n4: "length four_times = length four_frames"
    and b4: "\<forall>t \<in> set four_times. 0 \<le> t \<and> t \<le> 3 / 100"
    and short: "length four_frames < 5"
    by (simp_all add: four_times_def four_frames_def)
  from extract_mfcc_segment_full_span [OF s n b] five
  have full: "extract_mfcc_segment (map (replicate 13) [1, 2, 3, 4, 5])
                [0, 1 / 4, 2 / 4, 3 / 4, 1] 0 1 = map (replicate 13) [1, 2, 3, 4, 5]"
    by blast
  from extract_mfcc_segment_full_span [OF s4 n4 b4] short
  have none: "extract_mfcc_segment four_frames four_times 0 (3 / 100) = []"
    by blast
  from s n five full short none show ?thesis by blast
qed

subsection \<open>continuous\_score\<close>

lemma rising_last: "rising ((a, b) # ps) \<Longrightarrow> b \<le> snd (last ((a, b) # ps))"
proof (induction ps arbitrary: a b)
  case Nil then show ?case by simp
next
  case (Cons p ps)
  obtain c d where p: "p = (c, d)" by (cases p)
  from Cons.prems have "b \<le> d" "rising ((c, d) # ps)" by (simp_all add: p)
  with Cons.IH[of c d] show ?case by (simp add: p)
qed

lemma seg_bounds:
  fixes a b c d x :: real
  assumes "a < c" "b \<le> d" "a \<le> x" "x < c"
  shows "b \<le> (d - b) / (c - a) * (x - a) + b" "(d - b) / (c - a) * (x - a) + b \<le> d"
proof -
  have s: "0 \<le> (d - b) / (c - a)" using assms by simp
  show "b \<le> (d - b) / (c - a) * (x - a) + b" using s assms by simp
  have "(d - b) / (c - a) * (x - a) \<le> (d - b) / (c - a) * (c - a)"
    using s assms by (intro mult_left_mono) auto
  also have "\<dots> = d - b" using assms by simp
  finally show "(d - b) / (c - a) * (x - a) + b \<le> d" by simp
qed

lemma interp_walk_bounds:
  "rising ((a, b) # ps) \<Longrightarrow> a \<le> x \<Longrightarrow>
     b \<le> interp_walk x ((a, b) # ps) \<and> interp_walk x ((a, b) # ps) \<le> snd (last ((a, b) # ps))"
proof (induction ps arbitrary: a b)
  case Nil then show ?case by simp
next
  case (Cons p ps)
  obtain c d where p: "p = (c, d)" by (cases p)
  from Cons.prems have r: "a < c" "b \<le> d" "rising ((c, d) # ps)" by (simp_all add: p)
  show ?case
  proof (cases "x < c")
    case True
    from seg_bounds[OF r(1) r(2) Cons.prems(2) True] rising_last[OF r(3)]
    show ?thesis using True by (simp add: p)
  next
    case False
    then have "c \<le> x" by simp
    from Cons.IH[OF r(3) this] r(2) False show ?thesis by (simp add: p)
  qed
qed

lemma interp_walk_mono:
  "rising ((a, b) # ps) \<Longrightarrow> a \<le> x \<Longrightarrow> x \<le> y \<Longrightarrow>
     interp_walk x ((a, b) # ps) \<le> interp_walk y ((a, b) # ps)"
proof (induction ps arbitrary: a b)
  case Nil then show ?case by simp
next
  case (Cons p ps)
  obtain c d where p: "p = (c, d)" by (cases p)
  from Cons.prems have r: "a < c" "b \<le> d" "rising ((c, d) # ps)" by (simp_all add: p)
  show ?case
  proof (cases "y < c")
    case True
    then have xc: "x < c" using Cons.prems by simp
    have "0 \<le> (d - b) / (c - a)" using r by simp
    then have "(d - b) / (c - a) * (x - a) \<le> (d - b) / (c - a) * (y - a)"
      using Cons.prems by (intro mult_left_mono) auto
    then show ?thesis using True xc by (simp add: p)
  next
    case yc: False
    show ?thesis
    proof (cases "x < c")
      case True
      from seg_bounds(2)[OF r(1) r(2) Cons.prems(2) True]
      have "interp_walk x ((a, b) # p # ps) \<le> d" using True by (simp add: p)
      also have "d \<le> interp_walk y ((c, d) # ps)"
        using interp_walk_bounds[OF r(3), of y] yc by simp
      finally show ?thesis using yc by (simp add: p)
    next
      case False
      then have "c \<le> x" by simp
      from Cons.IH[OF r(3) this Cons.prems(3)] False yc show ?thesis by (simp add: p)
    qed
  qed
qed

lemma anchors_rising: "rising (zip sim_points score_points)"
  by (simp add: sim_points_def score_points_def)

lemma continuous_score_low: "x < 0 \<Longrightarrow> continuous_score x = 0"
  by (simp add: continuous_score_def np_interp_def sim_points_def score_points_def)

lemma continuous_score_high: "1 < x \<Longrightarrow> continuous_score x = 100"
  by (simp add: continuous_score_def np_interp_def sim_points_def score_points_def)

lemma continuous_score_mid:
  "0 \<le> x \<Longrightarrow> x \<le> 1 \<Longrightarrow>
     continuous_score x = interp_walk x (zip sim_points score_points)"
  by (simp add: continuous_score_def np_interp_def sim_points_def score_points_def)

lemma continuous_score_range: "0 \<le> continuous_score x \<and> continuous_score x \<le> 100"
proof -
  consider "x < 0" | "1 < x" | "0 \<le> x" "x \<le> 1" by linarith
  then show ?thesis
  proof cases
    case 1 then show ?thesis by (simp add: continuous_score_low)
  next
    case 2 then show ?thesis by (simp add: continuous_score_high)
  next
    case 3
    have z: "zip sim_points score_points = (0, 0) # tl (zip sim_points score_points)"
      by (simp add: sim_points_def score_points_def)
    have "rising ((0, 0) # tl (zip sim_points score_points))"
      using anchors_rising z by simp
    from interp_walk_bounds[OF this 3(1)] z
    have "0 \<le> interp_walk x (zip sim_points score_points)
        \<and> interp_walk x (zip sim_points score_points) \<le> snd (last (zip sim_points score_points))"
      by simp
    moreover have "snd (last (zip sim_points score_points)) = 100"
      by (simp add: sim_points_def score_points_def)
    ultimately show ?thesis using 3 by (simp add: continuous_score_mid)
  qed
qed

lemma continuous_score_mono: "x \<le> y \<Longrightarrow> continuous_score x \<le> continuous_score y"
proof -
  assume xy: "x \<le> y"
  consider "x < 0" | "1 < y" | "0 \<le> x" "y \<le> 1" by linarith
  then show ?thesis
  proof cases
    case 1 then show ?thesis using continuous_score_range[of y] by (simp add: continuous_score_low)
  next
    case 2 then show ?thesis using continuous_score_range[of x] by (simp add: continuous_score_high)
  next
    case 3
    have z: "zip sim_points score_points = (0, 0) # tl (zip sim_points score_points)"
      by (simp add: sim_points_def score_points_def)
    have "rising ((0, 0) # tl (zip sim_points score_points))"
      using anchors_rising z by simp
    from interp_walk_mono[OF this 3(1) xy] z
    have "interp_walk x (zip sim_points score_points) \<le> interp_walk y (zip sim_points score_points)"
      by simp
    then show ?thesis using 3 xy by (simp add: continuous_score_mid)
  qed
qed

text \<open>
  C4: continuous\_score is monotone non-decreasing on the whole real line; it maps 0 to 0,
  1 to 100 and 0.45 into [90, 100]; below the first anchor (0) it is the first score 0 and
  above the last anchor (1) it is the last score 100.
\<close>

theorem continuous_score_monotone_clamped:
  "(\<forall>x y. x \<le> y \<longrightarrow> continuous_score x \<le> continuous_score y)
   \<and> continuous_score 0 = 0
   \<and> continuous_score 1 = 100
   \<and> 90 \<le> continuous_score 0.45 \<and> continuous_score 0.45 \<le> 100
   \<and> (\<forall>x. x < 0 \<longrightarrow> continuous_score x = hd score_points \<and> continuous_score x = 0)
   \<and> (\<forall>x. 1 < x \<longrightarrow> continuous_score x = last score_points \<and> continuous_score x = 100)"
proof -
  have a: "continuous_score 0 = 0" "continuous_score 1 = 100"
    by (simp_all add: continuous_score_def np_interp_def sim_points_def score_points_def)
  have c: "continuous_score 0.45 = 1220 / 13"
    by (simp add: continuous_score_def np_interp_def sim_points_def score_points_def)
  have d: "90 \<le> continuous_score 0.45 \<and> continuous_score 0.45 \<le> 100"
    unfolding c by simp
  have b: "hd score_points = 0" "last score_points = 100"
    by (simp_all add: score_points_def)
  have m: "\<forall>x y. x \<le> y \<longrightarrow> continuous_score x \<le> continuous_score y"
    using continuous_score_mono by blast
  have l: "\<forall>x. x < 0 \<longrightarrow> continuous_score x = hd score_points \<and> continuous_score x = 0"
    using continuous_score_low b by simp
  have h: "\<forall>x. 1 < x \<longrightarrow> continuous_score x = last score_points \<and> continuous_score x = 100"
    using continuous_score_high b by simp
  from m a d l h show ?thesis by blast
qed

theorem continuous_score_monotone_clamped_witness:
  "(0.09::real) \<le> 0.3 \<and> continuous_score 0.09 \<le> continuous_score 0.3
   \<and> continuous_score 0.09 = 60 \<and> continuous_score 0.3 = 80
   \<and> (- 2 :: real) < 0 \<and> continuous_score (- 2) = 0
   \<and> (1::real) < 7 \<and> continuous_score 7 = 100"
proof -
  have le: "(0.09::real) \<le> 0.3" and lo: "(- 2 :: real) < 0" and hi: "(1::real) < 7"
    by simp_all
  have m: "continuous_score 0.09 \<le> continuous_score 0.3"
    using continuous_score_monotone_clamped le by blast
  have l: "continuous_score (- 2) = 0"
    using continuous_score_monotone_clamped lo by blast
  have h: "continuous_score 7 = 100"
    using continuous_score_monotone_clamped hi by blast
  have v: "continuous_score 0.09 = 60" "continuous_score 0.3 = 80"
    by (simp_all add: continuous_score_def np_interp_def sim_points_def score_points_def)
  show ?thesis using m l h v by simp
qed

subsection \<open>score\_text\_alignment\<close>

lemma cat_matches_cat: "word_match_with_normalization ''cat'' ''cat''"
  by code_simp

lemma parse_one_cat_early:
  "parse_whisper_cpp_result
     [[\<lparr>tok_text = Some ''cat'', ts_from = ''00:00:00,100'', ts_to = ''00:00:00,450'',
        tok_p = Some c\<rparr>]]
   = Inr [\<lparr>word = ''cat'', start_time = 1 / 10, end_time = 45 / 100, confidence = c\<rparr>]"
  by (simp add: parse_whisper_cpp_result_def parse_token_def parse_time_def py_float_def
        is_digit_def py_strip_def is_space_def)

lemma parse_one_cat_late:
  "parse_whisper_cpp_result
     [[\<lparr>tok_text = Some ''cat'', ts_from = ''00:00:02,000'', ts_to = ''00:00:02,500'',
        tok_p = Some c\<rparr>]]
   = Inr [\<lparr>word = ''cat'', start_time = 2, end_time = 5 / 2, confidence = c\<rparr>]"
  by (simp add: parse_whisper_cpp_result_def parse_token_def parse_time_def py_float_def
        is_digit_def py_strip_def is_space_def)

lemma parse_nothing: "parse_whisper_cpp_result [] = Inr []"
  by (simp add: parse_whisper_cpp_result_def)

lemma normalize_segments_word:
  assumes "i < length segs"
  shows "word (normalize_segments_to_zero segs ! i) = word (segs ! i)"
proof -
  from assms obtain s rest where segs: "segs = s # rest" by (cases segs) auto
  have "normalize_segments_to_zero segs =
      map (\<lambda>seg. seg\<lparr>start_time := start_time seg - start_time s,
                      end_time := end_time seg - start_time s\<rparr>) segs"
    unfolding segs by (simp add: normalize_segments_to_zero_def Let_def)
  then show ?thesis using assms by simp
qed

lemma normalize_segments_same_length:
  "length (normalize_segments_to_zero segs) = length segs"
  by (cases segs) (simp_all add: normalize_segments_to_zero_def Let_def)

lemma align_word_no_candidate:
  assumes "\<forall>u \<in> set user_normalized.
             end_time u < start_time r - 25 / 100 \<or> start_time u > end_time r + 25 / 100"
  shows "align_word user_normalized r
           = \<lparr>tr_word = word r, tr_status = Fail, lcs_similarity = 0, tr_confidence = Some 0\<rparr>"
proof -
  have "filter (\<lambda>u. \<not> (end_time u < start_time r - 25 / 100
                          \<or> start_time u > end_time r + 25 / 100)) user_normalized = []"
    using assms by (simp add: filter_empty_conv)
  then show ?thesis by (simp add: align_word_def Let_def)
qed

lemma score_text_alignment_no_candidate:
  assumes p: "parse_whisper_cpp_result user_whisper_json = Inr user_segments"
    and i: "i < length reference_segments"
    and out: "\<forall>u \<in> set (normalize_segments_to_zero user_segments).
             end_time u < start_time (normalize_segments_to_zero reference_segments ! i) - 25 / 100
             \<or> start_time u > end_time (normalize_segments_to_zero reference_segments ! i) + 25 / 100"
  shows "\<exists>res. score_text_alignment reference_segments user_whisper_json = Inr res
           \<and> length res = length reference_segments
           \<and> res ! i = \<lparr>tr_word = word (reference_segments ! i), tr_status = Fail,
                         lcs_similarity = 0, tr_confidence = Some 0\<rparr>"
proof -
  let ?un = "normalize_segments_to_zero user_segments"
  let ?rn = "normalize_segments_to_zero reference_segments"
  have r: "score_text_alignment reference_segments user_whisper_json
             = Inr (map (align_word ?un) ?rn)"
    by (simp add: score_text_alignment_def p Let_def)
  have li: "i < length ?rn" using i by (simp add: normalize_segments_same_length)
  have "map (align_word ?un) ?rn ! i = align_word ?un (?rn ! i)"
    using li by simp
  also have "\<dots> = \<lparr>tr_word = word (?rn ! i), tr_status = Fail, lcs_similarity = 0,
                       tr_confidence = Some 0\<rparr>"
    using out by (rule align_word_no_candidate)
  finally have "map (align_word ?un) ?rn ! i
      = \<lparr>tr_word = word (reference_segments ! i), tr_status = Fail, lcs_similarity = 0,
          tr_confidence = Some 0\<rparr>"
    using i by (simp add: normalize_segments_word)
  then show ?thesis
    unfolding r by (simp add: normalize_segments_same_length)
qed

lemma parse_one_the:
  "parse_whisper_cpp_result
     [[\<lparr>tok_text = Some ''the'', ts_from = ''00:00:00,000'', ts_to = ''00:00:00,400'',
        tok_p = Some c\<rparr>]]
   = Inr [\<lparr>word = ''the'', start_time = 0, end_time = 4 / 10, confidence = c\<rparr>]"
  by (simp add: parse_whisper_cpp_result_def parse_token_def parse_time_def py_float_def
        is_digit_def py_strip_def is_space_def)

text \<open>
  C3, counterexample: the reference word cat on [0.0, 0.5] against the single recognised
  token cat on [2.0, 2.5]. The user segments are shifted so that the first starts at 0,
  the candidate becomes cat on [0.0, 0.5], and the word passes with similarity 1: its
  status is not fail and its similarity is not 0.
\<close>

theorem score_text_alignment_late_candidate_counterexample:
  "score_text_alignment
     [\<lparr>word = ''cat'', start_time = 0, end_time = 1 / 2\<rparr>]
     [[\<lparr>tok_text = Some ''cat'', ts_from = ''00:00:02,000'', ts_to = ''00:00:02,500'',
        tok_p = Some (9 / 10)\<rparr>]]
   = Inr [\<lparr>tr_word = ''cat'', tr_status = Pass, lcs_similarity = 1,
           tr_confidence = Some (9 / 10)\<rparr>]"
  by (simp add: score_text_alignment_def parse_one_cat_late normalize_segments_to_zero_def
        align_word_def cat_matches_cat LCS_THRESH_def)

text \<open>
  C3, as the code has it: for the reference word cat on [0.0, 0.5] (tol 0.25, start\_tol
  0.5), the single user candidate cat on [0.1, 0.45] gives status pass; the single user
  candidate cat on [2.0, 2.5] is shifted to [0.0, 0.5] by the normalisation of the user
  segments and gives status pass with similarity 1 as well. In general, with both
  sequences shifted to start at 0, a reference word that no user segment meets in its
  window [start - 0.25, end + 0.25] gets status fail with similarity 0 and confidence 0,
  as every word does when nothing was recognised.
\<close>

theorem score_text_alignment_cat:
  "score_text_alignment
     [\<lparr>word = ''cat'', start_time = 0, end_time = 1 / 2\<rparr>]
     [[\<lparr>tok_text = Some ''cat'', ts_from = ''00:00:00,100'', ts_to = ''00:00:00,450'',
        tok_p = Some c\<rparr>]]
   = Inr [\<lparr>tr_word = ''cat'', tr_status = Pass, lcs_similarity = 1,
           tr_confidence = Some c\<rparr>]
   \<and> normalize_segments_to_zero
       [\<lparr>word = ''cat'', start_time = 2, end_time = 5 / 2, confidence = c\<rparr>]
     = [\<lparr>word = ''cat'', start_time = 0, end_time = 1 / 2, confidence = c\<rparr>]
   \<and> score_text_alignment
       [\<lparr>word = ''cat'', start_time = 0, end_time = 1 / 2\<rparr>]
       [[\<lparr>tok_text = Some ''cat'', ts_from = ''00:00:02,000'', ts_to = ''00:00:02,500'',
          tok_p = Some c\<rparr>]]
     = Inr [\<lparr>tr_word = ''cat'', tr_status = Pass, lcs_similarity = 1,
             tr_confidence = Some c\<rparr>]
   \<and> score_text_alignment [\<lparr>word = ''cat'', start_time = 0, end_time = 1 / 2\<rparr>] []
     = Inr [\<lparr>tr_word = ''cat'', tr_status = Fail, lcs_similarity = 0,
             tr_confidence = Some 0\<rparr>]
   \<and> (parse_whisper_cpp_result user_whisper_json = Inr user_segments
        \<and> i < length reference_segments
        \<and> (\<forall>u \<in> set (normalize_segments_to_zero user_segments).
               end_time u < start_time (normalize_segments_to_zero reference_segments ! i)
                              - 25 / 100
               \<or> start_time u > end_time (normalize_segments_to_zero reference_segments ! i)
                                + 25 / 100)
        \<longrightarrow> (\<exists>res. score_text_alignment reference_segments user_whisper_json = Inr res
               \<and> length res = length reference_segments
               \<and> res ! i = \<lparr>tr_word = word (reference_segments ! i), tr_status = Fail,
                             lcs_similarity = 0, tr_confidence = Some 0\<rparr>))"
proof -
  have early: "score_text_alignment
     [\<lparr>word = ''cat'', start_time = 0, end_time = 1 / 2\<rparr>]
     [[\<lparr>tok_text = Some ''cat'', ts_from = ''00:00:00,100'', ts_to = ''00:00:00,450'',
        tok_p = Some c\<rparr>]]
   = Inr [\<lparr>tr_word = ''cat'', tr_status = Pass, lcs_similarity = 1,
           tr_confidence = Some c\<rparr>]"
    by (simp add: score_text_alignment_def parse_one_cat_early normalize_segments_to_zero_def
          align_word_def cat_matches_cat LCS_THRESH_def)
  have shift: "normalize_segments_to_zero
       [\<lparr>word = ''cat'', start_time = 2, end_time = 5 / 2, confidence = c\<rparr>]
     = [\<lparr>word = ''cat'', start_time = 0, end_time = 1 / 2, confidence = c\<rparr>]"
    by (simp add: normalize_segments_to_zero_def)
  have late: "score_text_alignment
       [\<lparr>word = ''cat'', start_time = 0, end_time = 1 / 2\<rparr>]
       [[\<lparr>tok_text = Some ''cat'', ts_from = ''00:00:02,000'', ts_to = ''00:00:02,500'',
          tok_p = Some c\<rparr>]]
     = Inr [\<lparr>tr_word = ''cat'', tr_status = Pass, lcs_similarity = 1,
             tr_confidence = Some c\<rparr>]"
    by (simp add: score_text_alignment_def parse_one_cat_late normalize_segments_to_zero_def
          align_word_def cat_matches_cat LCS_THRESH_def)
  have none: "score_text_alignment [\<lparr>word = ''cat'', start_time = 0, end_time = 1 / 2\<rparr>] []
     = Inr [\<lparr>tr_word = ''cat'', tr_status = Fail, lcs_similarity = 0,
             tr_confidence = Some 0\<rparr>]"
    by (simp add: score_text_alignment_def parse_nothing normalize_segments_to_zero_def
          align_word_def)
  have general: "parse_whisper_cpp_result user_whisper_json = Inr user_segments
        \<and> i < length reference_segments
        \<and> (\<forall>u \<in> set (normalize_segments_to_zero user_segments).
               end_time u < start_time (normalize_segments_to_zero reference_segments ! i)
                              - 25 / 100
               \<or> start_time u > end_time (normalize_segments_to_zero reference_segments ! i)
                                + 25 / 100)
        \<longrightarrow> (\<exists>res. score_text_alignment reference_segments user_whisper_json = Inr res
               \<and> length res = length reference_segments
               \<and> res ! i = \<lparr>tr_word = word (reference_segments ! i), tr_status = Fail,
                             lcs_similarity = 0, tr_confidence = Some 0\<rparr>)"
    using score_text_alignment_no_candidate[of user_whisper_json user_segments i
            reference_segments]
    by blast
  show ?thesis
    by (intro conjI) (rule early shift late none general)+
qed

theorem score_text_alignment_cat_witness:
  "parse_whisper_cpp_result
     [[\<lparr>tok_text = Some ''the'', ts_from = ''00:00:00,000'', ts_to = ''00:00:00,400'',
        tok_p = Some (9 / 10)\<rparr>]]
   = Inr [\<lparr>word = ''the'', start_time = 0, end_time = 4 / 10, confidence = 9 / 10\<rparr>]
   \<and> (case score_text_alignment
             [\<lparr>word = ''the'', start_time = 0, end_time = 1 / 2\<rparr>,
              \<lparr>word = ''cat'', start_time = 5, end_time = 11 / 2\<rparr>]
             [[\<lparr>tok_text = Some ''the'', ts_from = ''00:00:00,000'', ts_to = ''00:00:00,400'',
                tok_p = Some (9 / 10)\<rparr>]] of
        Inl e \<Rightarrow> False
      | Inr res \<Rightarrow>
          length res = 2
          \<and> res ! 1 = \<lparr>tr_word = ''cat'', tr_status = Fail, lcs_similarity = 0,
                         tr_confidence = Some 0\<rparr>)"
proof -
  let ?refs = "[\<lparr>word = ''the'', start_time = 0, end_time = 1 / 2\<rparr>,
                \<lparr>word = ''cat'', start_time = 5, end_time = 11 / 2\<rparr>]"
  let ?json = "[[\<lparr>tok_text = Some ''the'', ts_from = ''00:00:00,000'',
                  ts_to = ''00:00:00,400'', tok_p = Some (9 / 10 :: real)\<rparr>]]"
  let ?us = "[\<lparr>word = ''the'', start_time = 0, end_time = 4 / 10, confidence = 9 / 10 :: real\<rparr>]"
  have p: "parse_whisper_cpp_result ?json = Inr ?us" by (rule parse_one_the)
  have i: "(1::nat) < length ?refs" by simp
  have out: "\<forall>u \<in> set (normalize_segments_to_zero ?us).
               end_time u < start_time (normalize_segments_to_zero ?refs ! 1) - 25 / 100
               \<or> start_time u > end_time (normalize_segments_to_zero ?refs ! 1) + 25 / 100"
    by (simp add: normalize_segments_to_zero_def)
  note g = score_text_alignment_cat[THEN conjunct2, THEN conjunct2, THEN conjunct2,
             THEN conjunct2, of ?json ?us 1 ?refs]
  from g p i out obtain res where
    r: "score_text_alignment ?refs ?json = Inr res" and l: "length res = 2"
    and v: "res ! 1 = \<lparr>tr_word = ''cat'', tr_status = Fail, lcs_similarity = 0,
                        tr_confidence = Some 0\<rparr>"
    by auto
  show ?thesis unfolding r using p l v by simp
qed

subsection \<open>analyze\_time\_overlap\<close>

text \<open>
  C5, the code at the failing inputs: a reference word, or a recognised user word, made of
  punctuation only normalises to the empty token list, and analyze\_time\_overlap raises
  IndexError instead of returning its records; the text comparison takes the same words
  without raising.
\<close>

theorem analyze_time_overlap_empty_tokens_raise:
  "normalize_and_tokenize ''-'' = []
   \<and> analyze_time_overlap [\<lparr>word = ''-'', start_time = 0, end_time = 1 / 2\<rparr>]
         ([] :: segment list) (4 / 10) = Inl IndexError
   \<and> normalize_and_tokenize ''...'' = []
   \<and> analyze_time_overlap [\<lparr>word = ''hello'', start_time = 0, end_time = 1 / 2\<rparr>]
         [\<lparr>word = ''...'', start_time = 0, end_time = 1 / 2\<rparr>] (4 / 10) = Inl IndexError
   \<and> \<not> word_match_with_normalization ''-'' ''hello''"
proof -
  have a: "normalize_and_tokenize ''-'' = []" and b: "normalize_and_tokenize ''...'' = []"
    and c: "normalize_and_tokenize ''hello'' = [''hello'']"
    by code_simp+
  have d: "\<not> word_match_with_normalization ''-'' ''hello''"
    by (simp add: word_match_with_normalization_def a c)
  show ?thesis
    by (simp add: a b d analyze_time_overlap_def time_overlap_word_def)
qed

lemma tokens_first:
  "normalize_and_tokenize w \<noteq> [] \<Longrightarrow>
     \<exists>rest. normalize_and_tokenize w = first_token w # rest"
  by (cases "normalize_and_tokenize w") (simp_all add: first_token_def)

lemma user_words_dict_lookup:
  assumes "\<forall>u \<in> set users. normalize_and_tokenize (word u) \<noteq> []"
  shows "\<exists>d'. user_words_dict d users = Inr d'
          \<and> (\<forall>k. d' k = (if filter (\<lambda>u. first_token (word u) = k) users = [] then d k
                         else Some (last (filter (\<lambda>u. first_token (word u) = k) users))))"
  using assms
proof (induction users arbitrary: d)
  case Nil
  then show ?case by simp
next
  case (Cons item items)
  from Cons.prems have ne: "normalize_and_tokenize (word item) \<noteq> []"
    and rest: "\<forall>u \<in> set items. normalize_and_tokenize (word u) \<noteq> []" by simp_all
  from tokens_first[OF ne] obtain r where
    tk: "normalize_and_tokenize (word item) = first_token (word item) # r" by blast
  from Cons.IH[OF rest, of "d(first_token (word item) \<mapsto> item)"] obtain d' where
    d': "user_words_dict (d(first_token (word item) \<mapsto> item)) items = Inr d'"
    and look: "\<forall>k. d' k =
        (if filter (\<lambda>u. first_token (word u) = k) items = []
         then (d(first_token (word item) \<mapsto> item)) k
         else Some (last (filter (\<lambda>u. first_token (word u) = k) items)))" by blast
  have "user_words_dict d (item # items) = Inr d'" by (simp add: tk d')
  moreover have "\<forall>k. d' k =
        (if filter (\<lambda>u. first_token (word u) = k) (item # items) = [] then d k
         else Some (last (filter (\<lambda>u. first_token (word u) = k) (item # items))))"
    using look by auto
  ultimately show ?case by blast
qed

lemma time_overlap_word_value:
  assumes ne: "normalize_and_tokenize (word r) \<noteq> []"
    and look: "\<And>k. d k = (if filter (\<lambda>u. first_token (word u) = k) users = [] then None
                           else Some (last (filter (\<lambda>u. first_token (word u) = k) users)))"
  shows "time_overlap_word threshold d r =
     Inr (if same_key_users users (word r) = []
          then \<lparr>tm_word = word r, time_match = False, overlap_ratio = 0,
                ref_start = start_time r, ref_end = end_time r,
                user_start = None, user_end = None\<rparr>
          else \<lparr>tm_word = word r,
                time_match = log_time_overlap_analysis
                   (snd (calculate_time_overlap (start_time r) (end_time r)
                           (start_time (last (same_key_users users (word r))))
                           (end_time (last (same_key_users users (word r)))))) threshold,
                overlap_ratio = snd (calculate_time_overlap (start_time r) (end_time r)
                           (start_time (last (same_key_users users (word r))))
                           (end_time (last (same_key_users users (word r))))),
                ref_start = start_time r, ref_end = end_time r,
                user_start = Some (start_time (last (same_key_users users (word r)))),
                user_end = Some (end_time (last (same_key_users users (word r))))\<rparr>)"
proof -
  from tokens_first[OF ne] obtain rest where
    tk: "normalize_and_tokenize (word r) = first_token (word r) # rest" by blast
  show ?thesis
    by (simp add: time_overlap_word_def Let_def tk look same_key_users_def)
qed

text \<open>
  C10: analyze\_time\_overlap stores the user words in a dict keyed by the first normalised
  token, so among user words with the same key the last one stays. When no word normalises
  to an empty token list, the analysis returns one record per reference word, and each
  reference word is compared with the last user word of its key (start, end, overlap ratio
  and the threshold test all come from that occurrence, whatever the times of the earlier
  ones); a reference word without a user word of its key gets no user times and no match.
\<close>

theorem analyze_time_overlap_last_occurrence:
  assumes "\<forall>u \<in> set users. normalize_and_tokenize (word u) \<noteq> []"
    and "\<forall>r \<in> set refs. normalize_and_tokenize (word r) \<noteq> []"
  shows "\<exists>results. analyze_time_overlap refs users threshold = Inr results
           \<and> length results = length refs
           \<and> (\<forall>i < length refs.
                 (same_key_users users (word (refs ! i)) = []
                    \<longrightarrow> user_start (results ! i) = None \<and> user_end (results ! i) = None
                        \<and> \<not> time_match (results ! i))
               \<and> (same_key_users users (word (refs ! i)) \<noteq> []
                    \<longrightarrow> user_start (results ! i)
                          = Some (start_time (last (same_key_users users (word (refs ! i)))))
                        \<and> user_end (results ! i)
                          = Some (end_time (last (same_key_users users (word (refs ! i)))))
                        \<and> overlap_ratio (results ! i)
                          = snd (calculate_time_overlap
                                   (start_time (refs ! i)) (end_time (refs ! i))
                                   (start_time (last (same_key_users users (word (refs ! i)))))
                                   (end_time (last (same_key_users users (word (refs ! i))))))
                        \<and> time_match (results ! i)
                          = (overlap_ratio (results ! i) \<ge> threshold)))"
proof -
  from user_words_dict_lookup[OF assms(1), of Map.empty] obtain d where
    d: "user_words_dict Map.empty users = Inr d"
    and look: "\<And>k. d k = (if filter (\<lambda>u. first_token (word u) = k) users = [] then None
                           else Some (last (filter (\<lambda>u. first_token (word u) = k) users)))"
    by auto
  let ?g = "\<lambda>r. (if same_key_users users (word r) = []
          then \<lparr>tm_word = word r, time_match = False, overlap_ratio = 0,
                ref_start = start_time r, ref_end = end_time r,
                user_start = None, user_end = None\<rparr>
          else \<lparr>tm_word = word r,
                time_match = log_time_overlap_analysis
                   (snd (calculate_time_overlap (start_time r) (end_time r)
                           (start_time (last (same_key_users users (word r))))
                           (end_time (last (same_key_users users (word r)))))) threshold,
                overlap_ratio = snd (calculate_time_overlap (start_time r) (end_time r)
                           (start_time (last (same_key_users users (word r))))
                           (end_time (last (same_key_users users (word r))))),
                ref_start = start_time r, ref_end = end_time r,
                user_start = Some (start_time (last (same_key_users users (word r)))),
                user_end = Some (end_time (last (same_key_users users (word r))))\<rparr>)"
  have "\<forall>r \<in> set refs. time_overlap_word threshold d r = Inr (?g r)"
    using assms(2) time_overlap_word_value[OF _ look] by blast
  then have c: "collect (map (time_overlap_word threshold d) refs) = Inr (map ?g refs)"
    by (rule collect_map_Inr)
  have r: "analyze_time_overlap refs users threshold = Inr (map ?g refs)"
    by (simp add: analyze_time_overlap_def d c)
  show ?thesis
    unfolding r by (simp add: log_time_overlap_analysis_def)
qed

lemma the_cat_tokens: "normalize_and_tokenize ''The'' = [''the'']" "normalize_and_tokenize ''the'' = [''the'']"
  "normalize_and_tokenize ''cat'' = [''cat'']"
  by code_simp+

theorem analyze_time_overlap_last_occurrence_witness:
  "same_key_users the_cat_the ''the''
      = [\<lparr>word = ''The'', start_time = 0, end_time = 1\<rparr>,
         \<lparr>word = ''the'', start_time = 5, end_time = 6\<rparr>]
   \<and> (case analyze_time_overlap [\<lparr>word = ''the'', start_time = 0, end_time = 1\<rparr>]
             the_cat_the (4 / 10) of
        Inl e \<Rightarrow> False
      | Inr results \<Rightarrow>
          length results = 1 \<and> user_start (results ! 0) = Some 5
          \<and> user_end (results ! 0) = Some 6 \<and> overlap_ratio (results ! 0) = 0
          \<and> \<not> time_match (results ! 0))"
proof -
  have u: "\<forall>u \<in> set the_cat_the. normalize_and_tokenize (word u) \<noteq> []"
    by (simp add: the_cat_the_def the_cat_tokens)
  have r: "\<forall>r \<in> set [\<lparr>word = ''the'', start_time = 0, end_time = 1\<rparr>].
             normalize_and_tokenize (word r) \<noteq> []"
    by (simp add: the_cat_tokens)
  have s: "same_key_users the_cat_the ''the''
      = [\<lparr>word = ''The'', start_time = 0, end_time = 1\<rparr>,
         \<lparr>word = ''the'', start_time = 5, end_time = 6\<rparr>]"
    by (simp add: same_key_users_def the_cat_the_def first_token_def the_cat_tokens)
  from analyze_time_overlap_last_occurrence[OF u r, of "4 / 10"] obtain results where
    res: "analyze_time_overlap [\<lparr>word = ''the'', start_time = 0, end_time = 1\<rparr>]
            the_cat_the (4 / 10) = Inr results"
    and len: "length results = 1"
    and us: "user_start (results ! 0) = Some 5" and ue: "user_end (results ! 0) = Some 6"
    and ov: "overlap_ratio (results ! 0) = snd (calculate_time_overlap 0 1 5 6)"
    and tm: "time_match (results ! 0) = (overlap_ratio (results ! 0) \<ge> 4 / 10)"
    by (auto simp: s)
  have z: "snd (calculate_time_overlap 0 1 5 6) = 0"
    by (simp add: calculate_time_overlap_def)
  show ?thesis
    unfolding res by (simp add: s len us ue ov tm z)
qed

subsection \<open>Double arithmetic\<close>

lemma pow2_powr: "pow2 k = 2 powr (of_int k)"
proof (cases "0 \<le> k")
  case True
  then show ?thesis by (simp add: pow2_def powr_realpow[symmetric])
next
  case False
  then have "2 powr (of_int k) = 1 / (2 powr (of_int (- k)) :: real)"
    by (simp add: powr_minus_divide)
  also have "\<dots> = 1 / 2 ^ nat (- k)"
    using False by (simp add: powr_realpow[symmetric])
  finally show ?thesis using False by (simp add: pow2_def)
qed

lemma binade_eq:
  assumes "pow2 e \<le> \<bar>x\<bar>" and "\<bar>x\<bar> < pow2 (e + 1)"
  shows "binade x = e"
proof -
  have pos: "0 < \<bar>x\<bar>"
    using assms(1) by (smt (verit) pow2_powr powr_gt_zero)
  have lo: "of_int e \<le> log 2 \<bar>x\<bar>"
    using assms(1) pos by (simp add: le_log_iff pow2_powr)
  have hi: "log 2 \<bar>x\<bar> < of_int e + 1"
    using assms(2) pos by (simp add: log_less_iff pow2_powr)
  show ?thesis unfolding binade_def using lo hi by (simp add: floor_eq_iff)
qed

lemma double_of_in_binade:
  assumes "pow2 e \<le> \<bar>x\<bar>" and "\<bar>x\<bar> < pow2 (e + 1)" and "- 1022 \<le> e"
  shows "double_of x = of_int (round_half_even (x / pow2 (e - 52))) * pow2 (e - 52)"
proof -
  have b: "binade x = e" using assms(1,2) by (rule binade_eq)
  have "x \<noteq> 0" using assms(1) by (smt (verit) pow2_powr powr_gt_zero)
  then show ?thesis using assms(3) by (simp add: double_of_def b Let_def max_def)
qed

lemma double_7_10: "double_of (7 / 10) = 3152519739159347 / 4503599627370496"
  by (subst double_of_in_binade[where e = "- 1"])
     (simp_all add: pow2_def round_half_even_def)

lemma double_9999: "double_of (9999 / 10000) = 4503149267407759 / 4503599627370496"
  by (subst double_of_in_binade[where e = "- 1"])
     (simp_all add: pow2_def round_half_even_def)

lemma double_905: "double_of (905 / 1000) = 4075757662770299 / 4503599627370496"
  by (subst double_of_in_binade[where e = "- 1"])
     (simp_all add: pow2_def round_half_even_def)

text \<open>The weighted sums 0.9999 * 0.7 + 0 * 0.3 and 0.905 * 0.7 + 0 * 0.3 in doubles.\<close>

lemma weighted_9999:
  "double_of (double_of (double_of (9999 / 10000) * double_of (7 / 10))
              + double_of (0 * double_of (3 / 10)))
   = 3152204487185431 / 4503599627370496"
proof -
  have p: "double_of (4503149267407759 / 4503599627370496
                      * (3152519739159347 / 4503599627370496))
           = 3152204487185431 / 4503599627370496"
    by (subst double_of_in_binade[where e = "- 1"])
       (simp_all add: pow2_def round_half_even_def)
  have z: "double_of (0 * double_of (3 / 10)) = 0" by (simp add: double_of_def)
  have s: "double_of (3152204487185431 / 4503599627370496 + 0)
           = 3152204487185431 / 4503599627370496"
    by (subst double_of_in_binade[where e = "- 1"])
       (simp_all add: pow2_def round_half_even_def)
  show ?thesis unfolding double_9999 double_7_10 p z s ..
qed

lemma weighted_905:
  "double_of (double_of (double_of (905 / 1000) * double_of (7 / 10))
              + double_of (0 * double_of (3 / 10)))
   = 2853030363939209 / 4503599627370496"
proof -
  have p: "double_of (4075757662770299 / 4503599627370496
                      * (3152519739159347 / 4503599627370496))
           = 2853030363939209 / 4503599627370496"
    by (subst double_of_in_binade[where e = "- 1"])
       (simp_all add: pow2_def round_half_even_def)
  have z: "double_of (0 * double_of (3 / 10)) = 0" by (simp add: double_of_def)
  have s: "double_of (2853030363939209 / 4503599627370496 + 0)
           = 2853030363939209 / 4503599627370496"
    by (subst double_of_in_binade[where e = "- 1"])
       (simp_all add: pow2_def round_half_even_def)
  show ?thesis unfolding double_905 double_7_10 p z s ..
qed

lemma py_round_weighted_9999: "py_round (3152204487185431 / 4503599627370496) 3 = 7 / 10"
  by (simp add: py_round_def round_half_even_def)

lemma py_round_weighted_905: "py_round (2853030363939209 / 4503599627370496) 3 = 633 / 1000"
  by (simp add: py_round_def round_half_even_def)

subsection \<open>generate\_comprehensive\_results\<close>

lemma results_step_scores:
  assumes "i < length tx"
  shows "\<exists>st'. results_step tx mf tm st (i, w) = Inr st'
           \<and> map wa_word (word_analysis st') = map wa_word (word_analysis st) @ [w]
           \<and> map word_score (word_analysis st')
               = map word_score (word_analysis st) @ [rounded_score tx mf i]"
  using assms by (simp add: results_step_def Let_def rounded_score_def)

lemma results_loop_scores:
  assumes "\<forall>iw \<in> set iws. fst iw < length tx"
  shows "\<exists>st'. results_loop tx mf tm st iws = Inr st'
           \<and> map wa_word (word_analysis st') = map wa_word (word_analysis st) @ map snd iws
           \<and> map word_score (word_analysis st')
               = map word_score (word_analysis st) @ map (\<lambda>iw. rounded_score tx mf (fst iw)) iws"
  using assms
proof (induction iws arbitrary: st)
  case Nil
  then show ?case by simp
next
  case (Cons iw iws)
  obtain i w where iw: "iw = (i, w)" by (cases iw)
  from Cons.prems have i: "i < length tx" and rest: "\<forall>iw \<in> set iws. fst iw < length tx"
    by (simp_all add: iw)
  from results_step_scores[OF i, of mf tm st w] obtain st1 where
    s1: "results_step tx mf tm st (i, w) = Inr st1"
    and w1: "map wa_word (word_analysis st1) = map wa_word (word_analysis st) @ [w]"
    and c1: "map word_score (word_analysis st1)
               = map word_score (word_analysis st) @ [rounded_score tx mf i]" by blast
  from Cons.IH[OF rest, of st1] obtain st' where
    l: "results_loop tx mf tm st1 iws = Inr st'"
    and w2: "map wa_word (word_analysis st') = map wa_word (word_analysis st1) @ map snd iws"
    and c2: "map word_score (word_analysis st')
               = map word_score (word_analysis st1) @ map (\<lambda>iw. rounded_score tx mf (fst iw)) iws"
    by blast
  have "results_loop tx mf tm st (iw # iws) = Inr st'" by (simp add: iw s1 l)
  then show ?case using w1 c1 w2 c2 by (simp add: iw)
qed

lemma report_scores:
  assumes "length reference_words \<le> length text_comparison_result"
  shows "\<exists>rep. generate_comprehensive_results py_sum reference_words text_comparison_result
                   mfcc_comparison_result time_matching_results = Inr rep
           \<and> length (rp_word_analysis rep) = length reference_words
           \<and> (\<forall>i < length reference_words.
                 wa_word (rp_word_analysis rep ! i) = reference_words ! i
               \<and> word_score (rp_word_analysis rep ! i)
                   = rounded_score text_comparison_result mfcc_comparison_result i)"
proof -
  let ?init = "\<lparr>word_analysis = [], text_pass_count = 0, time_pass_count = 0,
              stt_failures = [], time_failures = [], mfcc_low_quality = []\<rparr>"
  have idx: "\<forall>iw \<in> set (enumerate 0 reference_words). fst iw < length text_comparison_result"
    using assms by (auto simp: in_set_enumerate_eq)
  from results_loop_scores[OF idx, of mfcc_comparison_result time_matching_results ?init]
  obtain st where
    l: "results_loop text_comparison_result mfcc_comparison_result time_matching_results ?init
          (enumerate 0 reference_words) = Inr st"
    and w: "map wa_word (word_analysis st) = map snd (enumerate 0 reference_words)"
    and c: "map word_score (word_analysis st)
          = map (\<lambda>iw. rounded_score text_comparison_result mfcc_comparison_result (fst iw))
              (enumerate 0 reference_words)"
    by auto
  have len: "length (word_analysis st) = length reference_words"
    using w by (metis length_map length_enumerate)
  have words: "\<forall>i < length reference_words. wa_word (word_analysis st ! i) = reference_words ! i"
  proof (intro allI impI)
    fix i assume i: "i < length reference_words"
    have "wa_word (word_analysis st ! i) = map wa_word (word_analysis st) ! i"
      using i len by simp
    also have "\<dots> = reference_words ! i" using i by (simp add: w)
    finally show "wa_word (word_analysis st ! i) = reference_words ! i" .
  qed
  have scores: "\<forall>i < length reference_words. word_score (word_analysis st ! i)
       = rounded_score text_comparison_result mfcc_comparison_result i"
  proof (intro allI impI)
    fix i assume i: "i < length reference_words"
    have "word_score (word_analysis st ! i) = map word_score (word_analysis st) ! i"
      using i len by simp
    also have "\<dots> = rounded_score text_comparison_result mfcc_comparison_result i"
      using i by (simp add: c nth_enumerate_eq)
    finally show "word_score (word_analysis st ! i)
       = rounded_score text_comparison_result mfcc_comparison_result i" .
  qed
  obtain rep where rep: "generate_comprehensive_results py_sum reference_words text_comparison_result
                   mfcc_comparison_result time_matching_results = Inr rep"
    and wa: "rp_word_analysis rep = word_analysis st"
    by (simp add: generate_comprehensive_results_def l Let_def)
  show ?thesis
    using rep wa len words scores by auto
qed


lemma rounded_score_sure_cat: "rounded_score sure_cat silent_cat 0 = 7 / 10"
proof -
  have "rounded_score sure_cat silent_cat 0
        = py_round (double_of (double_of (double_of (9999 / 10000) * double_of (7 / 10))
                               + double_of (0 * double_of (3 / 10)))) 3"
    unfolding rounded_score_def sure_cat_def silent_cat_def mfcc_value_def by simp
  then show ?thesis unfolding weighted_9999 py_round_weighted_9999 .
qed

lemma rounded_score_likely_cat: "rounded_score likely_cat silent_cat 0 = 633 / 1000"
proof -
  have "rounded_score likely_cat silent_cat 0
        = py_round (double_of (double_of (double_of (905 / 1000) * double_of (7 / 10))
                               + double_of (0 * double_of (3 / 10)))) 3"
    unfolding rounded_score_def likely_cat_def silent_cat_def mfcc_value_def by simp
  then show ?thesis unfolding weighted_905 py_round_weighted_905 .
qed

text \<open>
  C7, counterexample: one reference word whose text status is pass with confidence 0.9999
  and whose calibrated MFCC score is 0. The weighted sum 0.7 * 0.9999 + 0.3 * 0 is, in
  doubles, 3152204487185431 / 2 ^ 52 (0.69993 to five decimals); the report holds 0.7.
\<close>

theorem word_score_unrounded_counterexample:
  "(case generate_comprehensive_results sum_list [''cat''] sure_cat silent_cat timed_cat of
      Inl e \<Rightarrow> False
    | Inr rep \<Rightarrow>
        word_score (rp_word_analysis rep ! 0) = 7 / 10
        \<and> double_of (double_of (double_of (9999 / 10000) * double_of (7 / 10))
                      + double_of (0 * double_of (3 / 10)))
            = 3152204487185431 / 4503599627370496
        \<and> word_score (rp_word_analysis rep ! 0) \<noteq> 3152204487185431 / 4503599627370496
        \<and> word_score (rp_word_analysis rep ! 0) \<noteq> 7 / 10 * (9999 / 10000) + 3 / 10 * 0)"
proof -
  have l: "length [''cat''] \<le> length sure_cat" by (simp add: sure_cat_def)
  from report_scores[OF l, of sum_list silent_cat timed_cat] obtain rep where
    rep: "generate_comprehensive_results sum_list [''cat''] sure_cat silent_cat timed_cat
            = Inr rep"
    and sc: "word_score (rp_word_analysis rep ! 0) = rounded_score sure_cat silent_cat 0"
    by auto
  have v: "word_score (rp_word_analysis rep ! 0) = 7 / 10"
    unfolding sc by (rule rounded_score_sure_cat)
  show ?thesis unfolding rep using v weighted_9999 by simp
qed

text \<open>
  C7, as the code has it: when the text comparison has an entry for every reference word,
  the report is produced with one entry per reference word, and the entry's word\_score is
  the double 0.7 * (the candidate's confidence if the text status is pass, else 0) + 0.3 *
  the MFCC value, rounded to three decimals; the MFCC value is the adjusted\_score when
  present and the raw similarity otherwise.
\<close>

theorem word_score_is_rounded_weighted_sum:
  assumes "length reference_words \<le> length text_comparison_result"
  shows "\<exists>rep. generate_comprehensive_results py_sum reference_words text_comparison_result
                   mfcc_comparison_result time_matching_results = Inr rep
           \<and> length (rp_word_analysis rep) = length reference_words
           \<and> (\<forall>i < length reference_words.
                 wa_word (rp_word_analysis rep ! i) = reference_words ! i
               \<and> word_score (rp_word_analysis rep ! i) =
                   py_round
                     (double_of
                        (double_of
                           ((if tr_status (text_comparison_result ! i) = Pass
                             then (case tr_confidence (text_comparison_result ! i) of
                                     Some c \<Rightarrow> c | None \<Rightarrow> 0)
                             else 0) * double_of (7 / 10))
                         + double_of
                             ((if i < length mfcc_comparison_result
                               then (case adjusted_score (mfcc_comparison_result ! i) of
                                       Some a \<Rightarrow> a
                                     | None \<Rightarrow>
                                         (case similarity (mfcc_comparison_result ! i) of
                                            Some s \<Rightarrow> s | None \<Rightarrow> 0))
                               else 0) * double_of (3 / 10)))) 3)"
  using report_scores[OF assms, of py_sum mfcc_comparison_result time_matching_results]
  unfolding rounded_score_def mfcc_value_def .

theorem word_score_is_rounded_weighted_sum_witness:
  "length [''cat''] \<le> length likely_cat
   \<and> (case generate_comprehensive_results sum_list [''cat''] likely_cat silent_cat timed_cat of
        Inl e \<Rightarrow> False
      | Inr rep \<Rightarrow> wa_word (rp_word_analysis rep ! 0) = ''cat''
                    \<and> word_score (rp_word_analysis rep ! 0) = 633 / 1000)"
proof -
  have l: "length [''cat''] \<le> length likely_cat" by (simp add: likely_cat_def)
  from word_score_is_rounded_weighted_sum[OF l, of sum_list silent_cat timed_cat]
  obtain rep where
    rep: "generate_comprehensive_results sum_list [''cat''] likely_cat silent_cat timed_cat
            = Inr rep"
    and w: "wa_word (rp_word_analysis rep ! 0) = ''cat''"
    and sc: "word_score (rp_word_analysis rep ! 0) =
       py_round
         (double_of
            (double_of
               ((if tr_status (likely_cat ! 0) = Pass
                 then (case tr_confidence (likely_cat ! 0) of Some c \<Rightarrow> c | None \<Rightarrow> 0)
                 else 0) * double_of (7 / 10))
             + double_of
                 ((if 0 < length silent_cat
                   then (case adjusted_score (silent_cat ! 0) of
                           Some a \<Rightarrow> a
                         | None \<Rightarrow> (case similarity (silent_cat ! 0) of
                                       Some s \<Rightarrow> s | None \<Rightarrow> 0))
                   else 0) * double_of (3 / 10)))) 3"
    by auto
  have "word_score (rp_word_analysis rep ! 0) = rounded_score likely_cat silent_cat 0"
    unfolding sc rounded_score_def mfcc_value_def ..
  then have "word_score (rp_word_analysis rep ! 0) = 633 / 1000"
    by (simp add: rounded_score_likely_cat)
  then show ?thesis unfolding rep using l w by simp
qed

subsection \<open>analyze\_pitch\_similarity\<close>

lemma pitch_loop_accumulates:
  "pitch_loop dtw rp up results sims segments =
     (results @ map (detail_of dtw rp up) segments,
      sims @ List.map_filter (segment_similarity dtw rp up) segments)"
proof (induction segments arbitrary: results sims)
  case Nil
  then show ?case by (simp add: List.map_filter_simps)
next
  case (Cons seg segments)
  show ?case
    by (cases "segment_similarity dtw rp up seg")
       (simp_all add: Cons.IH Let_def detail_of_def List.map_filter_simps)
qed

lemma extract_pitch_segment_safe_filter:
  "extract_pitch_segment_safe pitch_data s e =
     List.map_filter (\<lambda>pt. case hz pt of
                               Some h \<Rightarrow> if s \<le> pp_time pt \<and> pp_time pt \<le> e \<and> h > 0
                                         then Some h else None
                             | None \<Rightarrow> None) pitch_data"
  by (induction pitch_data) (auto simp: List.map_filter_simps split: option.splits)

lemma voiced_track_hello:
  "extract_pitch_segment_safe voiced_track 0 1 = [100, 110, 120, 130, 120, 110]"
  by (simp add: voiced_track_def)

lemma voiced_track_world: "extract_pitch_segment_safe voiced_track 2 3 = [100]"
  by (simp add: voiced_track_def)

lemma py_round_half: "py_round (1 / 2) 3 = 1 / 2"
  by (simp add: py_round_def round_half_even_def)

lemma pitch_segments_and_average:
  "length (segment_details (analyze_pitch_similarity dtw rp up segments)) = length segments
   \<and> (\<forall>i < length segments.
         sd_similarity (segment_details (analyze_pitch_similarity dtw rp up segments) ! i)
           = (if length (extract_pitch_segment_safe rp (ps_start (segments ! i))
                           (ps_end (segments ! i))) > 5
                 \<and> length (extract_pitch_segment_safe up (ps_start (segments ! i))
                              (ps_end (segments ! i))) > 5
              then Some (py_round
                           (dtw (extract_pitch_segment_safe rp (ps_start (segments ! i))
                                   (ps_end (segments ! i)))
                                (extract_pitch_segment_safe up (ps_start (segments ! i))
                                   (ps_end (segments ! i)))) 3)
              else None))
   \<and> pitch_similarity (analyze_pitch_similarity dtw rp up segments)
       = py_round
           (if List.map_filter (segment_similarity dtw rp up) segments = [] then 0
            else sum_list (List.map_filter (segment_similarity dtw rp up) segments)
                   / real (length (List.map_filter (segment_similarity dtw rp up) segments))) 3
   \<and> List.map_filter (segment_similarity dtw rp up) segments
       = map (\<lambda>seg. dtw (extract_pitch_segment_safe rp (ps_start seg) (ps_end seg))
                          (extract_pitch_segment_safe up (ps_start seg) (ps_end seg)))
           (filter (\<lambda>seg. length (extract_pitch_segment_safe rp (ps_start seg) (ps_end seg)) > 5
                         \<and> length (extract_pitch_segment_safe up (ps_start seg) (ps_end seg)) > 5)
              segments)"
proof -
  have a: "analyze_pitch_similarity dtw rp up segments =
      \<lparr>pitch_similarity = py_round
           (if List.map_filter (segment_similarity dtw rp up) segments = [] then 0
            else sum_list (List.map_filter (segment_similarity dtw rp up) segments)
                   / real (length (List.map_filter (segment_similarity dtw rp up) segments))) 3,
       segment_details = map (detail_of dtw rp up) segments\<rparr>"
    by (simp add: analyze_pitch_similarity_def pitch_loop_accumulates Let_def)
  have b: "List.map_filter (segment_similarity dtw rp up) segments
       = map (\<lambda>seg. dtw (extract_pitch_segment_safe rp (ps_start seg) (ps_end seg))
                          (extract_pitch_segment_safe up (ps_start seg) (ps_end seg)))
           (filter (\<lambda>seg. length (extract_pitch_segment_safe rp (ps_start seg) (ps_end seg)) > 5
                         \<and> length (extract_pitch_segment_safe up (ps_start seg) (ps_end seg)) > 5)
              segments)"
    by (induction segments)
       (simp_all add: List.map_filter_simps segment_similarity_def Let_def)
  have c: "\<forall>i < length segments.
         sd_similarity (map (detail_of dtw rp up) segments ! i)
           = (if length (extract_pitch_segment_safe rp (ps_start (segments ! i))
                           (ps_end (segments ! i))) > 5
                 \<and> length (extract_pitch_segment_safe up (ps_start (segments ! i))
                              (ps_end (segments ! i))) > 5
              then Some (py_round
                           (dtw (extract_pitch_segment_safe rp (ps_start (segments ! i))
                                   (ps_end (segments ! i)))
                                (extract_pitch_segment_safe up (ps_start (segments ! i))
                                   (ps_end (segments ! i)))) 3)
              else None)"
    by (simp add: detail_of_def segment_similarity_def Let_def)
  show ?thesis
    unfolding a using b c by simp
qed

text \<open>
  C8: a segment's similarity is computed (and reported rounded to three decimals) exactly
  when both the reference and the user side have more than 5 extracted pitch points, the
  voiced points with positive hz inside the segment's window; otherwise it is null. The
  aggregate pitch similarity is the rounded mean of the computed similarities only, the
  null segments left out, and 0 when no segment has a similarity.
\<close>

theorem pitch_null_segments_excluded:
  "length (segment_details (analyze_pitch_similarity dtw rp up segments)) = length segments
   \<and> (\<forall>i < length segments.
         sd_similarity (segment_details (analyze_pitch_similarity dtw rp up segments) ! i)
           = (if length (extract_pitch_segment_safe rp (ps_start (segments ! i))
                           (ps_end (segments ! i))) > 5
                 \<and> length (extract_pitch_segment_safe up (ps_start (segments ! i))
                              (ps_end (segments ! i))) > 5
              then Some (py_round
                           (dtw (extract_pitch_segment_safe rp (ps_start (segments ! i))
                                   (ps_end (segments ! i)))
                                (extract_pitch_segment_safe up (ps_start (segments ! i))
                                   (ps_end (segments ! i)))) 3)
              else None))
   \<and> pitch_similarity (analyze_pitch_similarity dtw rp up segments)
       = py_round
           (if List.map_filter (segment_similarity dtw rp up) segments = [] then 0
            else sum_list (List.map_filter (segment_similarity dtw rp up) segments)
                   / real (length (List.map_filter (segment_similarity dtw rp up) segments))) 3
   \<and> List.map_filter (segment_similarity dtw rp up) segments
       = map (\<lambda>seg. dtw (extract_pitch_segment_safe rp (ps_start seg) (ps_end seg))
                          (extract_pitch_segment_safe up (ps_start seg) (ps_end seg)))
           (filter (\<lambda>seg. length (extract_pitch_segment_safe rp (ps_start seg) (ps_end seg)) > 5
                         \<and> length (extract_pitch_segment_safe up (ps_start seg) (ps_end seg)) > 5)
              segments)
   \<and> extract_pitch_segment_safe pitch_data s e
       = List.map_filter
           (\<lambda>pt. case hz pt of
                    Some h \<Rightarrow> if s \<le> pp_time pt \<and> pp_time pt \<le> e \<and> h > 0
                              then Some h else None
                  | None \<Rightarrow> None) pitch_data"
proof -
  note core = pitch_segments_and_average[of dtw rp up segments]
  show ?thesis
  proof (intro conjI)
    show "length (segment_details (analyze_pitch_similarity dtw rp up segments)) = length segments"
      by (rule core[THEN conjunct1])
  qed (rule core[THEN conjunct2, THEN conjunct1]
        core[THEN conjunct2, THEN conjunct2, THEN conjunct1]
        core[THEN conjunct2, THEN conjunct2, THEN conjunct2]
        extract_pitch_segment_safe_filter)+
qed


theorem pitch_null_segments_excluded_witness:
  "map sd_similarity
     (segment_details (analyze_pitch_similarity (\<lambda>r u. 1 / 2) voiced_track voiced_track
                         hello_world))
     = [Some (1 / 2), None]
   \<and> pitch_similarity (analyze_pitch_similarity (\<lambda>r u. 1 / 2) voiced_track voiced_track
                           hello_world) = 1 / 2"
proof -
  let ?r = "analyze_pitch_similarity (\<lambda>r u. 1 / 2) voiced_track voiced_track hello_world"
  have i0: "0 < length hello_world" and i1: "1 < length hello_world"
    by (simp_all add: hello_world_def)
  have h0: "hello_world ! 0 = \<lparr>ps_text = ''hello'', ps_start = 0, ps_end = 1\<rparr>"
    and h1: "hello_world ! 1 = \<lparr>ps_text = ''world'', ps_start = 2, ps_end = 3\<rparr>"
    by (simp_all add: hello_world_def)
  note t = pitch_null_segments_excluded[of "\<lambda>r u. 1 / 2" voiced_track voiced_track hello_world]
  from t have len: "length (segment_details ?r) = 2" by (simp add: hello_world_def)
  from t have each: "\<And>i. i < length hello_world \<Longrightarrow>
      sd_similarity (segment_details ?r ! i)
        = (if length (extract_pitch_segment_safe voiced_track (ps_start (hello_world ! i))
                        (ps_end (hello_world ! i))) > 5
           then Some (py_round (1 / 2) 3) else None)"
    by simp
  have s0: "sd_similarity (segment_details ?r ! 0) = Some (1 / 2)"
    unfolding each[OF i0] h0 by (simp add: voiced_track_hello py_round_half)
  have s1: "sd_similarity (segment_details ?r ! 1) = None"
    unfolding each[OF i1] h1 by (simp add: voiced_track_world)
  have sims: "List.map_filter (segment_similarity (\<lambda>r u. 1 / 2) voiced_track voiced_track)
                hello_world = [1 / 2]"
    using t by (simp add: hello_world_def voiced_track_hello voiced_track_world)
  from t have avg: "pitch_similarity ?r = 1 / 2"
    by (simp add: sims py_round_half)
  have "map sd_similarity (segment_details ?r) = [Some (1 / 2), None]"
  proof (rule nth_equalityI)
    show "length (map sd_similarity (segment_details ?r)) = length [Some (1 / 2), None :: real option]"
      using len by simp
  next
    fix i assume "i < length (map sd_similarity (segment_details ?r))"
    then have "i = 0 \<or> i = 1" using len by auto
    then show "map sd_similarity (segment_details ?r) ! i = [Some (1 / 2), None] ! i"
      using s0 s1 len by auto
  qed
  with avg show ?thesis by simp
qed

end
